theory Spec2Isabelle
  imports Main "HOL-Library.Word"
begin

section \<open>JavaScript strings\<close>

text \<open>
  A JavaScript string is a sequence of 16-bit code units. ASCII literals of the source
  are written \<open>js ''...''\<close>.
\<close>

type_synonym code_unit = "16 word"
type_synonym jsstring = "code_unit list"

definition js :: "string \<Rightarrow> jsstring" where
  "js s = map (\<lambda>c. of_nat (of_char c)) s"

text \<open>\<^verbatim>\<open>s.startsWith(t)\<close>, \<^verbatim>\<open>s.endsWith(t)\<close> and \<^verbatim>\<open>s.includes(t)\<close>.\<close>

fun startsWith :: "'a list \<Rightarrow> 'a list \<Rightarrow> bool" where
  "startsWith s [] = True"
| "startsWith [] (y # t) = False"
| "startsWith (x # s) (y # t) = (x = y \<and> startsWith s t)"

definition endsWith :: "'a list \<Rightarrow> 'a list \<Rightarrow> bool" where
  "endsWith s t = startsWith (rev s) (rev t)"

fun str_includes :: "'a list \<Rightarrow> 'a list \<Rightarrow> bool" where
  "str_includes [] t = (t = [])"
| "str_includes (x # s) t = (startsWith (x # s) t \<or> str_includes s t)"

text \<open>The code units the source names.\<close>

abbreviation slash :: code_unit where "slash \<equiv> 0x2F"
abbreviation dot :: code_unit where "dot \<equiv> 0x2E"
abbreviation percent :: code_unit where "percent \<equiv> 0x25"
abbreviation dquote :: code_unit where "dquote \<equiv> 0x22"

text \<open>\<^verbatim>\<open>s.replace(/^\/+/, "")\<close>: every leading slash is removed.\<close>

definition strip_leading_slashes :: "jsstring \<Rightarrow> jsstring" where
  "strip_leading_slashes s = dropWhile (\<lambda>c. c = slash) s"

text \<open>
  \<^verbatim>\<open>s.trim()\<close> removes the ECMAScript white space and line terminator code units
  from both ends.
\<close>

definition is_white_space :: "code_unit \<Rightarrow> bool" where
  "is_white_space c \<longleftrightarrow>
     c \<in> {0x09, 0x0A, 0x0B, 0x0C, 0x0D, 0x20, 0xA0, 0x1680, 0x2028, 0x2029, 0x202F,
          0x205F, 0x3000, 0xFEFF} \<or> (0x2000 \<le> c \<and> c \<le> 0x200A)"

definition trim :: "jsstring \<Rightarrow> jsstring" where
  "trim s = rev (dropWhile is_white_space (rev (dropWhile is_white_space s)))"

section \<open>decodeURIComponent\<close>

text \<open>
  The built-in follows the Decode operation of ECMAScript with an empty set of preserved
  escapes: a code unit other than \<open>%\<close> is copied; \<open>%XX\<close> with a byte below 0x80 gives
  that code unit; a lead byte announces a UTF-8 sequence of two to four escaped bytes,
  which must be a valid encoding of a code point and is appended in UTF-16. Anything
  else throws \<open>URIError\<close>, which is \<open>None\<close> here.
\<close>

definition hex_digit :: "code_unit \<Rightarrow> nat option" where
  "hex_digit c =
     (if 0x30 \<le> c \<and> c \<le> 0x39 then Some (unat c - 0x30)
      else if 0x41 \<le> c \<and> c \<le> 0x46 then Some (unat c - 0x37)
      else if 0x61 \<le> c \<and> c \<le> 0x66 then Some (unat c - 0x57)
      else None)"

fun hex_octet :: "jsstring \<Rightarrow> nat option" where
  "hex_octet (a # b # rest) =
     (case hex_digit a of None \<Rightarrow> None
      | Some x \<Rightarrow> (case hex_digit b of None \<Rightarrow> None | Some y \<Rightarrow> Some (16 * x + y)))"
| "hex_octet rest = None"

text \<open>The number of leading 1 bits of a byte.\<close>

definition leading_ones :: "nat \<Rightarrow> nat" where
  "leading_ones b =
     (if b < 0x80 then 0 else if b < 0xC0 then 1 else if b < 0xE0 then 2
      else if b < 0xF0 then 3 else if b < 0xF8 then 4 else 5)"

text \<open>The next \<open>n\<close> escapes \<open>%XX\<close>, with what follows them.\<close>

fun continuation :: "nat \<Rightarrow> jsstring \<Rightarrow> (nat list \<times> jsstring) option" where
  "continuation 0 s = Some ([], s)"
| "continuation (Suc n) [] = None"
| "continuation (Suc n) (c # cs) =
     (if c \<noteq> percent then None
      else case hex_octet cs of None \<Rightarrow> None
        | Some b \<Rightarrow> (case continuation n (drop 2 cs) of None \<Rightarrow> None
            | Some (bs, rest) \<Rightarrow> Some (b # bs, rest)))"

definition is_cont :: "nat \<Rightarrow> bool" where
  "is_cont b \<longleftrightarrow> 0x80 \<le> b \<and> b < 0xC0"

text \<open>
  The code point of a well-formed UTF-8 sequence: no overlong form, no surrogate,
  nothing above U+10FFFF.
\<close>

fun utf8_code_point :: "nat list \<Rightarrow> nat option" where
  "utf8_code_point [b0, b1] =
     (let cp = (b0 - 0xC0) * 64 + (b1 - 0x80)
      in if is_cont b1 \<and> 0x80 \<le> cp then Some cp else None)"
| "utf8_code_point [b0, b1, b2] =
     (let cp = (b0 - 0xE0) * 4096 + (b1 - 0x80) * 64 + (b2 - 0x80)
      in if is_cont b1 \<and> is_cont b2 \<and> 0x800 \<le> cp \<and> \<not> (0xD800 \<le> cp \<and> cp \<le> 0xDFFF)
         then Some cp else None)"
| "utf8_code_point [b0, b1, b2, b3] =
     (let cp = (b0 - 0xF0) * 262144 + (b1 - 0x80) * 4096 + (b2 - 0x80) * 64 + (b3 - 0x80)
      in if is_cont b1 \<and> is_cont b2 \<and> is_cont b3 \<and> 0x10000 \<le> cp \<and> cp \<le> 0x10FFFF
         then Some cp else None)"
| "utf8_code_point bs = None"

definition utf16 :: "nat \<Rightarrow> jsstring" where
  "utf16 cp =
     (if cp < 0x10000 then [of_nat cp]
      else [of_nat (0xD800 + (cp - 0x10000) div 1024),
            of_nat (0xDC00 + (cp - 0x10000) mod 1024)])"

function decodeURIComponent :: "jsstring \<Rightarrow> jsstring option" where
  "decodeURIComponent [] = Some []"
| "decodeURIComponent (c # cs) =
     (if c \<noteq> percent then map_option ((#) c) (decodeURIComponent cs)
      else case hex_octet cs of None \<Rightarrow> None
        | Some b \<Rightarrow>
            if leading_ones b = 0
            then map_option ((#) (of_nat b)) (decodeURIComponent (drop 2 cs))
            else if leading_ones b = 1 \<or> 4 < leading_ones b then None
            else (case continuation (leading_ones b - 1) (drop 2 cs) of None \<Rightarrow> None
              | Some (bs, rest) \<Rightarrow>
                  (case utf8_code_point (b # bs) of None \<Rightarrow> None
                   | Some cp \<Rightarrow> map_option ((@) (utf16 cp)) (decodeURIComponent rest))))"
  by pat_completeness auto
termination
proof (relation "measure length", goal_cases)
  case (4 c cs b p bs rest cp)
  have shorter: "length r \<le> length s" if "continuation n s = Some (os, r)" for n s os r
    using that
  proof (induction n s arbitrary: os r rule: continuation.induct)
    case (3 n c cs)
    from "3.prems" obtain b os' where
      c: "c = percent" and b: "hex_octet cs = Some b"
      and r: "continuation n (drop 2 cs) = Some (os', r)"
      by (auto split: if_splits option.splits)
    from "3.IH" [OF _ b r] c have "length r \<le> length (drop 2 cs)"
      by simp
    then show ?case by simp
  qed simp_all
  from 4 have "continuation (leading_ones b - 1) (drop 2 cs) = Some (bs, rest)"
    by simp
  from shorter [OF this] show ?case by simp
qed simp_all

section \<open>More string operations\<close>

text \<open>\<^verbatim>\<open>s.split(sep)\<close> for a separator of one code unit; the result is never empty.\<close>

fun str_split :: "'a \<Rightarrow> 'a list \<Rightarrow> 'a list list" where
  "str_split sep [] = [[]]"
| "str_split sep (c # cs) =
     (if c = sep then [] # str_split sep cs
      else (case str_split sep cs of [] \<Rightarrow> [[c]] | p # ps \<Rightarrow> (c # p) # ps))"

text \<open>\<^verbatim>\<open>a.pop()\<close> is the last element, \<^verbatim>\<open>undefined\<close> on an empty array.\<close>

definition pop :: "'a list \<Rightarrow> 'a option" where
  "pop xs = (if xs = [] then None else Some (last xs))"

text \<open>\<^verbatim>\<open>s.lastIndexOf(c)\<close>: the greatest index holding \<open>c\<close>, or \<open>-1\<close>.\<close>

definition lastIndexOf :: "'a list \<Rightarrow> 'a \<Rightarrow> int" where
  "lastIndexOf s c =
     (case filter (\<lambda>i. s ! i = c) (rev [0 ..< length s]) of [] \<Rightarrow> - 1 | i # _ \<Rightarrow> int i)"

text \<open>\<^verbatim>\<open>s.substring(0, idx)\<close> for an index that is not negative.\<close>

definition substring0 :: "'a list \<Rightarrow> int \<Rightarrow> 'a list" where
  "substring0 s idx = take (nat idx) s"

section \<open>The platform: bucket, cache, requests and responses\<close>

type_synonym bytes = "8 word list"

text \<open>
  A plain object with string values, in insertion order; \<open>None\<close> is \<^verbatim>\<open>undefined\<close>.
  Assigning an existing property keeps its place, as the spread \<^verbatim>\<open>{...a, k: v}\<close>
  does.
\<close>

type_synonym js_object = "(jsstring \<times> jsstring option) list"

fun obj_set :: "jsstring \<Rightarrow> jsstring option \<Rightarrow> js_object \<Rightarrow> js_object" where
  "obj_set k v [] = [(k, v)]"
| "obj_set k v ((k', v') # ps) = (if k = k' then (k, v) # ps else (k', v') # obj_set k v ps)"

definition obj_spread :: "js_object \<Rightarrow> js_object \<Rightarrow> js_object" where
  "obj_spread base extra = foldl (\<lambda>acc (k, v). obj_set k v acc) base extra"

text \<open>The properties \<^verbatim>\<open>JSON.stringify\<close> writes: those that are not \<^verbatim>\<open>undefined\<close>.\<close>

definition json_fields :: "js_object \<Rightarrow> (jsstring \<times> jsstring) list" where
  "json_fields obj = List.map_filter (\<lambda>(k, v). map_option (Pair k) v) obj"

datatype body = Text jsstring | Binary bytes | Json "js_object list"

record response =
  status :: int
  headers :: js_object
  body :: body

text \<open>What a handler's promise settles to: a response, or a rejection with an error.\<close>

datatype exn = URIError | TypeError | StoreError jsstring

type_synonym outcome = "exn + response"

text \<open>
  \<^verbatim>\<open>new URL(rel, base)\<close> is kept as the pair of its arguments; the URL parser is
  not modelled. Every \<open>rel\<close> of the source starts with a slash, and every \<open>base\<close>
  is the URL of the request or its origin. Such a \<open>rel\<close> is resolved against the host
  of the base, which cannot fail, unless a second slash follows the first: then the
  host is read from \<open>rel\<close>, and the constructor throws when there is none or it is
  not valid (\<open>new_URL\<close> below). A cache key is the \<^verbatim>\<open>Request\<close> built from such a
  URL, with the \<^verbatim>\<open>cf.cacheTtl\<close> option when the source gives one.
\<close>

datatype url = NewURL (rel: jsstring) (base: jsstring)

record cache_key =
  target :: url
  cacheTtl :: "int option"

record stored_object =
  content :: bytes
  httpContentType :: "jsstring option"

text \<open>A child as \<^verbatim>\<open>MY_BUCKET.list\<close> reports it; \<open>uploaded\<close> is a time value in ms.\<close>

record r2object =
  key :: jsstring
  byte_size :: nat
  uploaded :: int

datatype store_op = OpGet jsstring | OpPut jsstring | OpDelete jsstring | OpList jsstring

text \<open>
  The mutable surroundings of a request: the content of \<^verbatim>\<open>env.MY_BUCKET\<close>, the
  operations issued to it (oldest first), and the \<^verbatim>\<open>cache.delete(cacheKey)\<close>
  promises handed to \<^verbatim>\<open>ctx.waitUntil\<close> (oldest first). A handler never waits for
  these promises, and nothing of the cache is read by it.
\<close>

record world =
  bucket :: "(jsstring \<times> stored_object) list"
  store_ops :: "store_op list"
  evictions :: "cache_key list"

text \<open>
  What a handler is given and does not change. \<open>corsHeaders\<close> and \<open>mimeTypes\<close> are the
  imports from \<^verbatim>\<open>./utils\<close>, a file that is not part of the sources at hand, so they
  are parameters; \<open>mimeTypes x\<close> is the string \<^verbatim>\<open>mimeTypes[x]\<close>, and \<open>None\<close> when
  the table has no entry \<open>x\<close>. The table is taken to hold strings and nothing else: a
  table that is a plain object also answers to the names it inherits, such as
  \<^verbatim>\<open>constructor\<close>, with values that are not strings, and these have no counterpart
  here. \<open>toLowerCase\<close> is the built-in, with its Unicode case mapping. \<open>fault n\<close> is
  the message of the error with which the bucket rejects the \<open>n\<close>-th operation
  issued to it, if it does. \<open>list_objects prefix\<close> is the \<^verbatim>\<open>objects\<close> property of
  what \<^verbatim>\<open>MY_BUCKET.list({prefix})\<close> resolves to; which keys it holds, in which
  order and how many is the store's business, so it is not computed from \<open>bucket\<close>.
  \<open>url_error rel base\<close> is the message of the error that \<^verbatim>\<open>new URL(rel, base)\<close>
  throws, if it does, when the host is read from \<open>rel\<close>.
\<close>

record env =
  corsHeaders :: js_object
  mimeTypes :: "jsstring \<Rightarrow> jsstring option"
  toLowerCase :: "jsstring \<Rightarrow> jsstring"
  fault :: "nat \<Rightarrow> jsstring option"
  list_objects :: "jsstring \<Rightarrow> r2object list option"
  url_error :: "jsstring \<Rightarrow> jsstring \<Rightarrow> jsstring option"

datatype form_value = Field jsstring | File jsstring bytes

text \<open>
  \<open>origin\<close> and \<open>pathname\<close> are the properties of \<^verbatim>\<open>new URL(request.url)\<close>;
  \<open>form\<close> is what \<^verbatim>\<open>request.formData()\<close> resolves to, \<open>None\<close> when it rejects.
\<close>

record request =
  url :: jsstring
  origin :: jsstring
  pathname :: jsstring
  payload :: bytes
  form :: "(jsstring \<times> form_value) list option"

text \<open>Issuing an operation logs it and asks the fault oracle.\<close>

definition issue :: "env \<Rightarrow> store_op \<Rightarrow> world \<Rightarrow> jsstring option \<times> world" where
  "issue e op w = (fault e (length (store_ops w)), w\<lparr>store_ops := store_ops w @ [op]\<rparr>)"

definition bucket_put ::
    "env \<Rightarrow> jsstring \<Rightarrow> bytes \<Rightarrow> jsstring option \<Rightarrow> world \<Rightarrow> jsstring option \<times> world" where
  "bucket_put e k d ct w =
     (case issue e (OpPut k) w of
        (Some msg, w') \<Rightarrow> (Some msg, w')
      | (None, w') \<Rightarrow>
          (None, w'\<lparr>bucket := (k, \<lparr>content = d, httpContentType = ct\<rparr>)
                                 # filter (\<lambda>(k', _). k' \<noteq> k) (bucket w')\<rparr>))"

definition bucket_delete :: "env \<Rightarrow> jsstring \<Rightarrow> world \<Rightarrow> jsstring option \<times> world" where
  "bucket_delete e k w =
     (case issue e (OpDelete k) w of
        (Some msg, w') \<Rightarrow> (Some msg, w')
      | (None, w') \<Rightarrow> (None, w'\<lparr>bucket := filter (\<lambda>(k', _). k' \<noteq> k) (bucket w')\<rparr>))"

definition bucket_get ::
    "env \<Rightarrow> jsstring \<Rightarrow> world \<Rightarrow> (jsstring + stored_object option) \<times> world" where
  "bucket_get e k w =
     (case issue e (OpGet k) w of
        (Some msg, w') \<Rightarrow> (Inl msg, w')
      | (None, w') \<Rightarrow> (Inr (map_of (bucket w') k), w'))"

definition waitUntil_delete :: "cache_key \<Rightarrow> world \<Rightarrow> world" where
  "waitUntil_delete ck w = w\<lparr>evictions := evictions w @ [ck]\<rparr>"

text \<open>
  \<^verbatim>\<open>new URL(rel, base)\<close> for a \<open>rel\<close> that starts with a slash. The parser drops
  tabs and line breaks first; when a slash or a backslash comes second, the host is
  read from \<open>rel\<close> and the constructor may throw, \<open>Inl\<close> being the message.
\<close>

definition scheme_relative :: "jsstring \<Rightarrow> bool" where
  "scheme_relative r =
     (case filter (\<lambda>c. c \<noteq> 0x09 \<and> c \<noteq> 0x0A \<and> c \<noteq> 0x0D) r of
        a # b # rest \<Rightarrow> b = slash \<or> b = 0x5C
      | _ \<Rightarrow> False)"

definition new_URL :: "env \<Rightarrow> jsstring \<Rightarrow> jsstring \<Rightarrow> jsstring + url" where
  "new_URL e r b =
     (if scheme_relative r
      then (case url_error e r b of
              Some msg \<Rightarrow> Inl msg
            | None \<Rightarrow> Inr (NewURL r b))
      else Inr (NewURL r b))"

text \<open>
  A header value may hold code units up to 0xFF only, and neither NUL nor a line
  break; the \<^verbatim>\<open>Headers\<close> of a response throw a \<open>TypeError\<close> otherwise.
\<close>

definition header_value_ok :: "jsstring \<Rightarrow> bool" where
  "header_value_ok v = list_all (\<lambda>c. c \<le> 0xFF \<and> c \<noteq> 0x00 \<and> c \<noteq> 0x0A \<and> c \<noteq> 0x0D) v"

text \<open>\<^verbatim>\<open>mimeTypes[extension] || fallback\<close>: an empty string is falsy.\<close>

definition mime_or :: "env \<Rightarrow> jsstring \<Rightarrow> jsstring option \<Rightarrow> jsstring option" where
  "mime_or e extension fallback =
     (case mimeTypes e extension of
        None \<Rightarrow> fallback
      | Some t \<Rightarrow> if t = [] then fallback else Some t)"

text \<open>\<^verbatim>\<open>name.split(".").pop().toLowerCase()\<close>\<close>

definition extension_of :: "env \<Rightarrow> jsstring \<Rightarrow> jsstring" where
  "extension_of e filename = toLowerCase e (last (str_split dot filename))"

section \<open>The handlers for single objects\<close>

text \<open>
  The bucket's operations and \<^verbatim>\<open>request.formData\<close> may reject, and the built-ins
  \<^verbatim>\<open>decodeURIComponent\<close> and \<^verbatim>\<open>encodeURI\<close> may throw; every such case is a
  branch of the handlers below, and the message of a bucket error is the one the fault
  oracle gives. \<^verbatim>\<open>new URL\<close> throws in \<^verbatim>\<open>handleDeleteFile\<close> when the directory
  is read as a host that is not valid, and \<^verbatim>\<open>new Response\<close> throws in
  \<^verbatim>\<open>handleGetFile\<close> when the file name cannot be part of a header value; the
  values of \<open>corsHeaders\<close> and \<open>mimeTypes\<close> are taken to be valid header values.
  The other calls of the platform (\<^verbatim>\<open>new URL("/", request.url)\<close>,
  \<^verbatim>\<open>new Request\<close>, \<^verbatim>\<open>caches.default\<close>, \<^verbatim>\<open>ctx.waitUntil\<close>,
  \<^verbatim>\<open>request.arrayBuffer\<close>) are taken to succeed. A response carries the status,
  the headers and the body that the source hands to its constructor; the status is
  200 when the source gives none.
\<close>

definition respond :: "int \<Rightarrow> js_object \<Rightarrow> jsstring \<Rightarrow> outcome" where
  "respond st hs txt = Inr \<lparr>status = st, headers = hs, body = Text txt\<rparr>"

text \<open>
  Lines 92 to 98 of \<^verbatim>\<open>handlePutFile\<close>: the path is decoded, refused when it holds
  \<^verbatim>\<open>..\<close> or is blank, and only then loses its leading slashes. \<open>Inr None\<close> is the
  refusal that the handler answers with status 400.
\<close>

definition canonicalize :: "jsstring \<Rightarrow> exn + jsstring option" where
  "canonicalize raw =
     (case decodeURIComponent raw of
        None \<Rightarrow> Inl URIError
      | Some filePath \<Rightarrow>
          if str_includes filePath (js ''..'') \<or> trim filePath = [] then Inr None
          else Inr (Some (strip_leading_slashes filePath)))"

definition handlePutFile :: "env \<Rightarrow> request \<Rightarrow> world \<Rightarrow> outcome \<times> world" where
  "handlePutFile e request w =
     (case canonicalize (pathname request) of
        Inl err \<Rightarrow> (Inl err, w)
      | Inr None \<Rightarrow> (respond 400 (corsHeaders e) (js ''Invalid path''), w)
      | Inr (Some filePath) \<Rightarrow>
          (let data = payload request;
               extension = extension_of e filePath;
               contentType = mime_or e extension (Some (js ''application/octet-stream''))
           in case bucket_put e filePath data contentType w of
                (Some msg, w') \<Rightarrow>
                  (respond 500 (corsHeaders e) (js ''Failed to upload file: '' @ msg), w')
              | (None, w') \<Rightarrow>
                  (let listingUrl = NewURL (js ''/'') (url request);
                       cacheKey = \<lparr>target = listingUrl, cacheTtl = None\<rparr>
                   in (respond 201 (corsHeaders e) (js ''File uploaded successfully''),
                       waitUntil_delete cacheKey w'))))"

text \<open>
  The directory whose listing \<^verbatim>\<open>handleDeleteFile\<close> evicts (lines 13 to 17). The
  URL of the listing is built inside the \<^verbatim>\<open>try\<close>, after the object has been
  deleted, so its error is answered with status 500 and nothing is evicted.
\<close>

definition delete_dir :: "jsstring \<Rightarrow> jsstring" where
  "delete_dir filePath =
     (if str_includes filePath (js ''/'')
      then (let idx = lastIndexOf filePath slash
            in if 0 < idx then js ''/'' @ substring0 filePath idx else js ''/'')
      else js ''/'')"

definition handleDeleteFile :: "env \<Rightarrow> request \<Rightarrow> world \<Rightarrow> outcome \<times> world" where
  "handleDeleteFile e request w =
     (case decodeURIComponent (drop 1 (pathname request)) of
        None \<Rightarrow> (Inl URIError, w)
      | Some filePath \<Rightarrow>
          if str_includes filePath (js ''..'') then (respond 400 [] (js ''Invalid path''), w)
          else (case bucket_delete e filePath w of
                  (Some msg, w') \<Rightarrow>
                    (respond 500 (corsHeaders e) (js ''Failed to delete file: '' @ msg), w')
                | (None, w') \<Rightarrow>
                    (let dir = delete_dir filePath
                     in case new_URL e dir (origin request) of
                          Inl msg \<Rightarrow>
                            (respond 500 (corsHeaders e) (js ''Failed to delete file: '' @ msg),
                             w')
                        | Inr listingUrl \<Rightarrow>
                            (let cacheKey = \<lparr>target = listingUrl, cacheTtl = Some 604800\<rparr>
                             in (respond 200 (corsHeaders e) (js ''File deleted successfully''),
                                 waitUntil_delete cacheKey w')))))"

text \<open>
  \<^verbatim>\<open>handleGetFile\<close> decodes before it looks at the root path, and neither the
  decoding nor the bucket's \<^verbatim>\<open>get\<close> nor the construction of the response is
  inside a \<^verbatim>\<open>try\<close>.
\<close>

definition handleGetFile :: "env \<Rightarrow> request \<Rightarrow> world \<Rightarrow> outcome \<times> world" where
  "handleGetFile e request w =
     (let path = pathname request
      in case decodeURIComponent (drop 1 path) of
           None \<Rightarrow> (Inl URIError, w)
         | Some filename \<Rightarrow>
             if path = js ''/''
             then (respond 302
                     (obj_spread [(js ''Location'', Some (js ''/dav''))] (corsHeaders e))
                     (js ''Use /dav for WebDAV''), w)
             else (case bucket_get e filename w of
                     (Inl msg, w') \<Rightarrow> (Inl (StoreError msg), w')
                   | (Inr None, w') \<Rightarrow>
                       (respond 404 (corsHeaders e) (js ''File not found''), w')
                   | (Inr (Some file), w') \<Rightarrow>
                       (let extension = extension_of e filename;
                            contentType = mime_or e extension (mimeTypes e (js ''default''));
                            disposition = js ''inline; filename='' @ [dquote] @ filename @ [dquote]
                        in if \<not> header_value_ok disposition then (Inl TypeError, w')
                           else (Inr \<lparr>status = 200,
                                      headers = obj_spread (corsHeaders e)
                                        [(js ''Content-Type'', contentType),
                                         (js ''Content-Disposition'', Some disposition)],
                                      body = Binary (content file)\<rparr>, w'))))"

section \<open>Bulk upload\<close>

text \<open>The two object literals pushed to \<^verbatim>\<open>results\<close> (lines 47 and 54).\<close>

definition success_entry :: "jsstring \<Rightarrow> jsstring option \<Rightarrow> js_object" where
  "success_entry sanitizedFilename contentType =
     [(js ''sanitizedFilename'', Some sanitizedFilename),
      (js ''status'', Some (js ''success'')),
      (js ''contentType'', contentType)]"

definition failure_entry :: "jsstring \<Rightarrow> jsstring \<Rightarrow> js_object" where
  "failure_entry filename message =
     [(js ''filename'', Some filename),
      (js ''status'', Some (js ''failed'')),
      (js ''error'', Some message)]"

text \<open>
  The loop over \<^verbatim>\<open>formData.entries()\<close>, with \<^verbatim>\<open>results\<close> and the world as
  accumulators; the last equation's \<^verbatim>\<open>return\<close>s leave the loop and the handler.
\<close>

fun upload_entries ::
    "env \<Rightarrow> request \<Rightarrow> (jsstring \<times> form_value) list \<Rightarrow> js_object list \<Rightarrow> world
      \<Rightarrow> outcome \<times> world" where
  "upload_entries e request [] results w =
     (Inr \<lparr>status = 200,
           headers = obj_spread (corsHeaders e)
                       [(js ''Content-Type'', Some (js ''application/json''))],
           body = Json results\<rparr>, w)"
| "upload_entries e request ((fieldName, Field v) # entries) results w =
     upload_entries e request entries results w"
| "upload_entries e request ((fieldName, File filename data) # entries) results w =
     (let extension = extension_of e filename;
          contentType = mime_or e extension (mimeTypes e (js ''default''));
          sanitizedFilename = strip_leading_slashes filename
      in if str_includes filename (js ''..'') then (respond 400 [] (js ''Invalid path''), w)
         else if sanitizedFilename = [] then (respond 400 [] (js ''Invalid filename''), w)
         else (case bucket_put e sanitizedFilename data contentType w of
                 (None, w') \<Rightarrow>
                   upload_entries e request entries
                     (results @ [success_entry sanitizedFilename contentType])
                     (waitUntil_delete
                        \<lparr>target = NewURL (js ''/'') (url request), cacheTtl = Some 604800\<rparr> w')
               | (Some msg, w') \<Rightarrow>
                   upload_entries e request entries
                     (results @ [failure_entry filename msg]) w'))"

definition handleMultpleUploads :: "env \<Rightarrow> request \<Rightarrow> world \<Rightarrow> outcome \<times> world" where
  "handleMultpleUploads e request w =
     (case form request of
        None \<Rightarrow> (Inl TypeError, w)
      | Some entries \<Rightarrow> upload_entries e request entries [] w)"

section \<open>encodeURI, numbers and dates as text\<close>

text \<open>
  The built-in \<^verbatim>\<open>encodeURI\<close> keeps the unreserved and the reserved code units and
  \<open>#\<close>, and writes every other code point as the \<open>%XX\<close> escapes of its UTF-8 bytes.
  A surrogate without its partner throws \<open>URIError\<close>, which is \<open>None\<close> here.
\<close>

definition uri_unescaped :: "code_unit \<Rightarrow> bool" where
  "uri_unescaped c \<longleftrightarrow>
     (0x41 \<le> c \<and> c \<le> 0x5A) \<or> (0x61 \<le> c \<and> c \<le> 0x7A) \<or> (0x30 \<le> c \<and> c \<le> 0x39)
     \<or> c \<in> set (js ''-_.!~*()'') \<or> c = 0x27 \<or> c \<in> set (js '';/?:@&=+$,#'')"

definition hex_char :: "nat \<Rightarrow> code_unit" where
  "hex_char n = (if n < 10 then of_nat (0x30 + n) else of_nat (0x37 + n))"

definition percent_octet :: "nat \<Rightarrow> jsstring" where
  "percent_octet b = [percent, hex_char (b div 16), hex_char (b mod 16)]"

definition utf8_octets :: "nat \<Rightarrow> nat list" where
  "utf8_octets cp =
     (if cp < 0x80 then [cp]
      else if cp < 0x800 then [0xC0 + cp div 64, 0x80 + cp mod 64]
      else if cp < 0x10000
        then [0xE0 + cp div 4096, 0x80 + cp div 64 mod 64, 0x80 + cp mod 64]
      else [0xF0 + cp div 262144, 0x80 + cp div 4096 mod 64, 0x80 + cp div 64 mod 64,
            0x80 + cp mod 64])"

definition escape_code_point :: "nat \<Rightarrow> jsstring" where
  "escape_code_point cp = concat (map percent_octet (utf8_octets cp))"

fun encodeURI :: "jsstring \<Rightarrow> jsstring option" where
  "encodeURI [] = Some []"
| "encodeURI (c # cs) =
     (if uri_unescaped c then map_option ((#) c) (encodeURI cs)
      else if 0xD800 \<le> c \<and> c \<le> 0xDBFF
        then (case cs of
                [] \<Rightarrow> None
              | d # ds \<Rightarrow>
                  if 0xDC00 \<le> d \<and> d \<le> 0xDFFF
                  then map_option
                         ((@) (escape_code_point
                                 (0x10000 + (unat c - 0xD800) * 1024 + (unat d - 0xDC00))))
                         (encodeURI ds)
                  else None)
      else if 0xDC00 \<le> c \<and> c \<le> 0xDFFF then None
      else map_option ((@) (escape_code_point (unat c))) (encodeURI cs))"

text \<open>A size as the template literal writes it: the decimal digits.\<close>

definition digit :: "nat \<Rightarrow> code_unit" where
  "digit n = of_nat (0x30 + n)"

fun number_string :: "nat \<Rightarrow> jsstring" where
  "number_string n = (if n < 10 then [digit n] else number_string (n div 10) @ [digit (n mod 10)])"

declare number_string.simps [simp del]

definition zero_padded :: "nat \<Rightarrow> nat \<Rightarrow> jsstring" where
  "zero_padded width n =
     replicate (width - length (number_string n)) (digit 0) @ number_string n"

text \<open>
  \<^verbatim>\<open>new Date(t).toUTCString()\<close> for a time value \<open>t\<close> in milliseconds since 1970,
  after the abstract operations of ECMAScript on time values. \<open>DayFromYear y\<close> is the
  day number of 1 January of the year \<open>y\<close>, \<open>YearFromDay\<close> the greatest year that
  starts on or before a day, found by stepping from an estimate; \<open>MonthFromDay\<close> and
  \<open>DateFromDay\<close> are the tables of \<open>MonthFromTime\<close> and \<open>DateFromTime\<close> over the
  day within the year, with \<open>l\<close> being 1 in a leap year. A time value beyond 8.64e15 ms
  is not a date.
\<close>

definition DayFromYear :: "int \<Rightarrow> int" where
  "DayFromYear y = 365 * (y - 1970) + (y - 1969) div 4 - (y - 1901) div 100 + (y - 1601) div 400"

definition InLeapYear :: "int \<Rightarrow> int" where
  "InLeapYear y = (if y mod 4 = 0 \<and> (y mod 100 \<noteq> 0 \<or> y mod 400 = 0) then 1 else 0)"

function year_down :: "int \<Rightarrow> int \<Rightarrow> int" where
  "year_down day y = (if day < DayFromYear y then year_down day (y - 1) else y)"
  by pat_completeness auto
termination
proof (relation "measure (\<lambda>(day, y). nat (DayFromYear y - day))", goal_cases)
  case (2 day y)
  have a: "(y - 1 - 1969) div 4 \<le> (y - 1969) div 4" by (rule zdiv_mono1) simp_all
  have b: "(y - 1 - 1601) div 400 \<le> (y - 1601) div 400" by (rule zdiv_mono1) simp_all
  have "(y - 1901) div 100 \<le> (y - 1 - 1901 + 100) div 100" by (rule zdiv_mono1) simp_all
  also have "\<dots> = (y - 1 - 1901) div 100 + 1" by simp
  finally have c: "(y - 1901) div 100 \<le> (y - 1 - 1901) div 100 + 1" .
  have lin: "\<And>a a' b b' c c' :: int. a \<le> a' \<Longrightarrow> b \<le> b' \<Longrightarrow> c' \<le> c + 1
    \<Longrightarrow> 365 * (y - 1 - 1970) + a - c + b < 365 * (y - 1970) + a' - c' + b'"
    by simp
  have "DayFromYear (y - 1) < DayFromYear y"
    unfolding DayFromYear_def using a b c by (rule lin)
  with 2 show ?case by simp
qed simp

declare year_down.simps [simp del]

function year_up :: "int \<Rightarrow> int \<Rightarrow> int" where
  "year_up day y = (if DayFromYear (y + 1) \<le> day then year_up day (y + 1) else y)"
  by pat_completeness auto
termination
proof (relation "measure (\<lambda>(day, y). nat (day + 1 - DayFromYear (y + 1)))", goal_cases)
  case (2 day y)
  have a: "(y + 1 - 1969) div 4 \<le> (y + 1 + 1 - 1969) div 4" by (rule zdiv_mono1) simp_all
  have b: "(y + 1 - 1601) div 400 \<le> (y + 1 + 1 - 1601) div 400" by (rule zdiv_mono1) simp_all
  have "(y + 1 + 1 - 1901) div 100 \<le> (y + 1 - 1901 + 100) div 100" by (rule zdiv_mono1) simp_all
  also have "\<dots> = (y + 1 - 1901) div 100 + 1" by simp
  finally have c: "(y + 1 + 1 - 1901) div 100 \<le> (y + 1 - 1901) div 100 + 1" .
  have lin: "\<And>a a' b b' c c' :: int. a \<le> a' \<Longrightarrow> b \<le> b' \<Longrightarrow> c' \<le> c + 1
    \<Longrightarrow> 365 * (y + 1 - 1970) + a - c + b < 365 * (y + 1 + 1 - 1970) + a' - c' + b'"
    by simp
  have "DayFromYear (y + 1) < DayFromYear (y + 1 + 1)"
    unfolding DayFromYear_def using a b c by (rule lin)
  with 2 show ?case by simp
qed simp

declare year_up.simps [simp del]

definition YearFromDay :: "int \<Rightarrow> int" where
  "YearFromDay day = year_up day (year_down day (1970 + day div 365))"

definition MonthFromDay :: "int \<Rightarrow> int \<Rightarrow> nat" where
  "MonthFromDay d l =
     (if d < 31 then 0 else if d < 59 + l then 1 else if d < 90 + l then 2
      else if d < 120 + l then 3 else if d < 151 + l then 4 else if d < 181 + l then 5
      else if d < 212 + l then 6 else if d < 243 + l then 7 else if d < 273 + l then 8
      else if d < 304 + l then 9 else if d < 334 + l then 10 else 11)"

definition DateFromDay :: "int \<Rightarrow> int \<Rightarrow> nat" where
  "DateFromDay d l =
     (let m = MonthFromDay d l
      in nat (if m = 0 then d + 1 else if m = 1 then d - 30 else if m = 2 then d - 58 - l
              else if m = 3 then d - 89 - l else if m = 4 then d - 119 - l
              else if m = 5 then d - 150 - l else if m = 6 then d - 180 - l
              else if m = 7 then d - 211 - l else if m = 8 then d - 242 - l
              else if m = 9 then d - 272 - l else if m = 10 then d - 303 - l
              else d - 333 - l))"

definition civil :: "int \<Rightarrow> int \<times> nat \<times> nat" where
  "civil day =
     (let y = YearFromDay day;
          d = day - DayFromYear y;
          l = InLeapYear y
      in (y, MonthFromDay d l, DateFromDay d l))"

definition day_names :: "string list" where
  "day_names = [''Sun'', ''Mon'', ''Tue'', ''Wed'', ''Thu'', ''Fri'', ''Sat'']"

definition month_names :: "string list" where
  "month_names = [''Jan'', ''Feb'', ''Mar'', ''Apr'', ''May'', ''Jun'',
                  ''Jul'', ''Aug'', ''Sep'', ''Oct'', ''Nov'', ''Dec'']"

definition toUTCString :: "int \<Rightarrow> jsstring" where
  "toUTCString t =
     (if 8640000000000000 < \<bar>t\<bar> then js ''Invalid Date''
      else (let day = t div 86400000;
                ms = t mod 86400000;
                (y, m, d) = civil day
            in js (day_names ! nat ((day + 4) mod 7)) @ js '', '' @ zero_padded 2 d @ js '' ''
               @ js (month_names ! m) @ js '' ''
               @ (if y < 0 then js ''-'' else []) @ zero_padded 4 (nat \<bar>y\<bar>) @ js '' ''
               @ zero_padded 2 (nat (ms div 3600000)) @ js '':''
               @ zero_padded 2 (nat (ms div 60000 mod 60)) @ js '':''
               @ zero_padded 2 (nat (ms div 1000 mod 60)) @ js '' GMT''))"

section \<open>The collection listing\<close>

text \<open>The lines of a template literal, joined by line feeds.\<close>

fun js_lines :: "string list \<Rightarrow> jsstring" where
  "js_lines [] = []"
| "js_lines [l] = js l"
| "js_lines (l # ls) = js l @ [0x0A] @ js_lines ls"

text \<open>
  The opening template (lines 135 to 148) as a function of its two interpolations, and
  the template added for each object (lines 155 to 167) as a function of its five.
\<close>

definition collection_response :: "jsstring \<Rightarrow> jsstring \<Rightarrow> jsstring" where
  \<open>collection_response href displayname =
     js_lines [''<?xml version="1.0" encoding="utf-8" ?>'',
               ''<D:multistatus xmlns:D="DAV:">'',
               ''  <D:response>'',
               ''    <D:href>''] @ href @
     js_lines [''</D:href>'',
               ''    <D:propstat>'',
               ''      <D:prop>'',
               ''        <D:resourcetype><D:collection/></D:resourcetype>'',
               ''        <D:displayname>''] @ displayname @
     js_lines [''</D:displayname>'',
               ''        <D:creationdate>2024-01-01T00:00:00Z</D:creationdate>'',
               ''        <D:getlastmodified>Mon, 01 Jan 2024 00:00:00 GMT</D:getlastmodified>'',
               ''      </D:prop>'',
               ''      <D:status>HTTP/1.1 200 OK</D:status>'',
               ''    </D:propstat>'',
               ''  </D:response>'']\<close>

definition object_response ::
    "jsstring \<Rightarrow> bool \<Rightarrow> jsstring \<Rightarrow> jsstring \<Rightarrow> jsstring \<Rightarrow> jsstring" where
  "object_response href isFolder displayname len modified =
     js_lines ['''',
               ''  <D:response>'',
               ''    <D:href>''] @ href @
     js_lines [''</D:href>'',
               ''    <D:propstat>'',
               ''      <D:prop>'',
               ''        '']
       @ (if isFolder then js ''<D:resourcetype><D:collection/></D:resourcetype>''
          else js ''<D:resourcetype/>'') @
     js_lines ['''',
               ''        <D:displayname>''] @ displayname @
     js_lines [''</D:displayname>'',
               ''        <D:getcontentlength>''] @ len @
     js_lines [''</D:getcontentlength>'',
               ''        <D:getlastmodified>''] @ modified @
     js_lines [''</D:getlastmodified>'',
               ''      </D:prop>'',
               ''      <D:status>HTTP/1.1 200 OK</D:status>'',
               ''    </D:propstat>'',
               ''  </D:response>'']"

text \<open>The two display names (lines 142 and 161).\<close>

definition collection_displayname :: "jsstring \<Rightarrow> jsstring" where
  "collection_displayname path =
     (if path = js ''/'' then js ''root'' else last (str_split slash path))"

definition object_displayname :: "jsstring \<Rightarrow> jsstring" where
  "object_displayname k =
     (case pop (filter (\<lambda>x. x \<noteq> []) (str_split slash k)) of
        None \<Rightarrow> k
      | Some seg \<Rightarrow> if seg = [] then k else seg)"

text \<open>
  What one turn of the loop over \<^verbatim>\<open>objects\<close> appends to \<^verbatim>\<open>xmlResponse\<close>
  (\<open>None\<close> when \<^verbatim>\<open>encodeURI\<close> throws), and the loop.
\<close>

definition render_object :: "r2object \<Rightarrow> jsstring option" where
  "render_object obj =
     (let objPath = js ''/'' @ key obj;
          isFolder = endsWith (key obj) (js ''/'')
      in case encodeURI objPath of
           None \<Rightarrow> None
         | Some href \<Rightarrow>
             Some (object_response href isFolder (object_displayname (key obj))
                     (number_string (byte_size obj)) (toUTCString (uploaded obj))))"

fun render_objects :: "r2object list \<Rightarrow> jsstring \<Rightarrow> jsstring option" where
  "render_objects [] xmlResponse = Some xmlResponse"
| "render_objects (obj # objects) xmlResponse =
     (case render_object obj of
        None \<Rightarrow> None
      | Some piece \<Rightarrow> render_objects objects (xmlResponse @ piece))"

text \<open>Lines 120 to 129: the path without its trailing slash, and the prefix listed.\<close>

definition normalize_path :: "jsstring \<Rightarrow> jsstring" where
  "normalize_path p =
     (let path = (if \<not> startsWith p (js ''/'') then js ''/'' @ p else p)
      in if endsWith path (js ''/'') \<and> path \<noteq> js ''/'' then butlast path else path)"

definition list_prefix :: "jsstring \<Rightarrow> jsstring" where
  "list_prefix path =
     (let prefix = (if path = js ''/'' then [] else drop 1 path)
      in if prefix \<noteq> [] \<and> \<not> endsWith prefix (js ''/'') then prefix @ js ''/'' else prefix)"

definition xml_error :: "env \<Rightarrow> jsstring \<Rightarrow> outcome" where
  \<open>xml_error e message =
     Inr \<lparr>status = 500,
          headers = obj_spread (corsHeaders e)
                      [(js ''Content-Type'', Some (js ''application/xml''))],
          body = Text (js ''<?xml version="1.0" encoding="utf-8" ?><D:error xmlns:D="DAV:">''
                       @ message @ js ''</D:error>'')\<rparr>\<close>

text \<open>The message of the \<open>URIError\<close> that \<^verbatim>\<open>encodeURI\<close> throws.\<close>

definition uri_malformed :: jsstring where
  "uri_malformed = js ''URI malformed''"

definition handleFileList :: "env \<Rightarrow> request \<Rightarrow> world \<Rightarrow> outcome \<times> world" where
  "handleFileList e request w =
     (let path = normalize_path (pathname request);
          prefix = list_prefix path
      in case issue e (OpList prefix) w of
           (Some msg, w') \<Rightarrow> (xml_error e msg, w')
         | (None, w') \<Rightarrow>
             (let objects = (case list_objects e prefix of None \<Rightarrow> [] | Some os \<Rightarrow> os)
              in case encodeURI path of
                   None \<Rightarrow> (xml_error e uri_malformed, w')
                 | Some href \<Rightarrow>
                     (case render_objects objects
                             (collection_response href (collection_displayname path)) of
                        None \<Rightarrow> (xml_error e uri_malformed, w')
                      | Some xmlResponse \<Rightarrow>
                          (Inr \<lparr>status = 207,
                                headers = obj_spread (corsHeaders e)
                                  [(js ''Content-Type'',
                                    Some (js ''application/xml; charset=utf-8'')),
                                   (js ''DAV'', Some (js ''1, 2''))],
                                body = Text (xmlResponse @ js_lines ['''', ''</D:multistatus>''])\<rparr>,
                           w'))))"

section \<open>Notions used to state the properties\<close>

text \<open>The status of the response, when the handler responds at all.\<close>

definition status_of :: "outcome \<Rightarrow> int option" where
  "status_of out = (case out of Inl err \<Rightarrow> None | Inr resp \<Rightarrow> Some (status resp))"

definition body_of :: "outcome \<Rightarrow> body option" where
  "body_of out = (case out of Inl err \<Rightarrow> None | Inr resp \<Rightarrow> Some (body resp))"

text \<open>The keys that hold an object.\<close>

definition stored_keys :: "world \<Rightarrow> jsstring set" where
  "stored_keys w = fst ` set (bucket w)"

text \<open>
  The specification's parent directory of a key: everything before the last \<open>/\<close>, or
  the root when the key has no \<open>/\<close>; as a path it starts with \<open>/\<close>.
\<close>

definition parent_listing :: "jsstring \<Rightarrow> jsstring" where
  "parent_listing k =
     (if slash \<in> set k then js ''/'' @ rev (drop 1 (dropWhile (\<lambda>c. c \<noteq> slash) (rev k)))
      else js ''/'')"

text \<open>The file items of a form, in order, and the names that end a bulk upload.\<close>

fun file_items :: "(jsstring \<times> form_value) list \<Rightarrow> (jsstring \<times> bytes) list" where
  "file_items [] = []"
| "file_items ((fieldName, Field v) # entries) = file_items entries"
| "file_items ((fieldName, File filename d) # entries) = (filename, d) # file_items entries"

definition refused_name :: "jsstring \<Rightarrow> bool" where
  "refused_name filename \<longleftrightarrow>
     str_includes filename (js ''..'') \<or> strip_leading_slashes filename = []"

abbreviation accepted_names :: "(jsstring \<times> form_value) list \<Rightarrow> bool" where
  "accepted_names entries \<equiv>
     list_all (\<lambda>(filename, d). \<not> refused_name filename) (file_items entries)"

text \<open>The entries that come before the first file item with a refused name.\<close>

fun accepted_prefix :: "(jsstring \<times> form_value) list \<Rightarrow> (jsstring \<times> form_value) list" where
  "accepted_prefix [] = []"
| "accepted_prefix ((fieldName, Field v) # entries) = (fieldName, Field v) # accepted_prefix entries"
| "accepted_prefix ((fieldName, File filename d) # entries) =
     (if refused_name filename then []
      else (fieldName, File filename d) # accepted_prefix entries)"

text \<open>
  What the array reports for a file item, given what the bucket answered to its
  \<^verbatim>\<open>put\<close>; and the reports for a run of items whose first \<^verbatim>\<open>put\<close> is the
  \<open>n\<close>-th operation on the bucket.
\<close>

definition item_report :: "env \<Rightarrow> jsstring \<Rightarrow> jsstring option \<Rightarrow> js_object" where
  "item_report e filename answer =
     (case answer of
        None \<Rightarrow> success_entry (strip_leading_slashes filename)
                  (mime_or e (extension_of e filename) (mimeTypes e (js ''default'')))
      | Some msg \<Rightarrow> failure_entry filename msg)"

fun reports :: "env \<Rightarrow> nat \<Rightarrow> (jsstring \<times> bytes) list \<Rightarrow> js_object list" where
  "reports e n [] = []"
| "reports e n ((filename, d) # items) = item_report e filename (fault e n) # reports e (Suc n) items"

text \<open>The world after the loop has dealt with one file item whose name is not refused.\<close>

definition after_item :: "env \<Rightarrow> request \<Rightarrow> jsstring \<Rightarrow> bytes \<Rightarrow> world \<Rightarrow> world" where
  "after_item e request filename d w =
     (case bucket_put e (strip_leading_slashes filename) d
             (mime_or e (extension_of e filename) (mimeTypes e (js ''default''))) w of
        (None, w') \<Rightarrow>
          waitUntil_delete \<lparr>target = NewURL (js ''/'') (url request), cacheTtl = Some 604800\<rparr> w'
      | (Some msg, w') \<Rightarrow> w')"

text \<open>The positions, among \<open>k\<close> items put from operation \<open>n\<close> on, whose \<^verbatim>\<open>put\<close> succeeds.\<close>

definition stored_positions :: "env \<Rightarrow> nat \<Rightarrow> nat \<Rightarrow> nat list" where
  "stored_positions e n k = filter (\<lambda>i. fault e (n + i) = None) [0 ..< k]"

text \<open>The children that \<^verbatim>\<open>handleFileList\<close> renders for a request.\<close>

definition listed_objects :: "env \<Rightarrow> request \<Rightarrow> r2object list" where
  "listed_objects e request =
     (case list_objects e (list_prefix (normalize_path (pathname request))) of
        None \<Rightarrow> []
      | Some os \<Rightarrow> os)"

text \<open>The value that the JSON text of an object gives for a name.\<close>

definition json_field :: "js_object \<Rightarrow> string \<Rightarrow> jsstring option" where
  "json_field obj name = map_of (json_fields obj) (js name)"

text \<open>
  A piece of an XML document: character data, or an element with its children. An
  element without children is written as an empty-element tag. The text written for
  a tree stands for that tree only when its character data is free of markup.
\<close>

datatype xml = Chars jsstring | Element string "xml list"

fun serialize :: "xml \<Rightarrow> jsstring" where
  "serialize (Chars s) = s"
| "serialize (Element tag []) = js (''<'' @ tag @ ''/>'')"
| "serialize (Element tag (k # ks)) =
     js (''<'' @ tag @ ''>'') @ concat (map serialize (k # ks)) @ js (''</'' @ tag @ ''>'')"

definition markup_free :: "jsstring \<Rightarrow> bool" where
  "markup_free s = list_all (\<lambda>c. c \<noteq> 0x3C \<and> c \<noteq> 0x3E \<and> c \<noteq> 0x26) s"

text \<open>A line feed and the spaces that indent the next line.\<close>

definition line_break :: "string \<Rightarrow> xml" where
  "line_break spaces = Chars (0x0A # js spaces)"

definition child_entry :: "jsstring \<Rightarrow> bool \<Rightarrow> jsstring \<Rightarrow> jsstring \<Rightarrow> jsstring \<Rightarrow> xml" where
  "child_entry href folder displayname len modified =
     Element ''D:response''
       [line_break ''    '', Element ''D:href'' [Chars href],
        line_break ''    '', Element ''D:propstat''
          [line_break ''      '', Element ''D:prop''
             [line_break ''        '',
              Element ''D:resourcetype'' (if folder then [Element ''D:collection'' []] else []),
              line_break ''        '', Element ''D:displayname'' [Chars displayname],
              line_break ''        '', Element ''D:getcontentlength'' [Chars len],
              line_break ''        '', Element ''D:getlastmodified'' [Chars modified],
              line_break ''      ''],
           line_break ''      '', Element ''D:status'' [Chars (js ''HTTP/1.1 200 OK'')],
           line_break ''    ''],
        line_break ''  '']"

definition collection_entry :: "jsstring \<Rightarrow> jsstring \<Rightarrow> xml" where
  "collection_entry href displayname =
     Element ''D:response''
       [line_break ''    '', Element ''D:href'' [Chars href],
        line_break ''    '', Element ''D:propstat''
          [line_break ''      '', Element ''D:prop''
             [line_break ''        '',
              Element ''D:resourcetype'' [Element ''D:collection'' []],
              line_break ''        '', Element ''D:displayname'' [Chars displayname],
              line_break ''        '',
              Element ''D:creationdate'' [Chars (js ''2024-01-01T00:00:00Z'')],
              line_break ''        '',
              Element ''D:getlastmodified'' [Chars (js ''Mon, 01 Jan 2024 00:00:00 GMT'')],
              line_break ''      ''],
           line_break ''      '', Element ''D:status'' [Chars (js ''HTTP/1.1 200 OK'')],
           line_break ''    ''],
        line_break ''  '']"

definition multistatus :: "xml list \<Rightarrow> jsstring" where
  \<open>multistatus responses =
     js_lines [''<?xml version="1.0" encoding="utf-8" ?>'', ''<D:multistatus xmlns:D="DAV:">'']
     @ concat (map (\<lambda>r. serialize (line_break ''  '') @ serialize r) responses)
     @ js_lines ['''', ''</D:multistatus>'']\<close>

text \<open>
  The date format of RFC 1123, as in \<^verbatim>\<open>Sun, 06 Nov 1994 08:49:37 GMT\<close>, and the
  time values from the first millisecond of the year 0000 to the last of the year
  9999, whose year has four digits.
\<close>

definition is_digit :: "code_unit \<Rightarrow> bool" where
  "is_digit c \<longleftrightarrow> 0x30 \<le> c \<and> c \<le> 0x39"

definition is_rfc1123 :: "jsstring \<Rightarrow> bool" where
  "is_rfc1123 s \<longleftrightarrow>
     length s = 29
     \<and> take 3 s \<in> set (map js day_names) \<and> take 2 (drop 3 s) = js '', ''
     \<and> list_all is_digit (take 2 (drop 5 s)) \<and> take 1 (drop 7 s) = js '' ''
     \<and> take 3 (drop 8 s) \<in> set (map js month_names) \<and> take 1 (drop 11 s) = js '' ''
     \<and> list_all is_digit (take 4 (drop 12 s)) \<and> take 1 (drop 16 s) = js '' ''
     \<and> list_all is_digit (take 2 (drop 17 s)) \<and> take 1 (drop 19 s) = js '':''
     \<and> list_all is_digit (take 2 (drop 20 s)) \<and> take 1 (drop 22 s) = js '':''
     \<and> list_all is_digit (take 2 (drop 23 s)) \<and> drop 25 s = js '' GMT''"

definition four_digit_year :: "int \<Rightarrow> bool" where
  "four_digit_year t \<longleftrightarrow> - 62167219200000 \<le> t \<and> t < 253402300800000"

section \<open>Concrete surroundings for the examples\<close>

text \<open>Lower case for the letters A to Z, which is what the built-in does on ASCII text.\<close>

definition ascii_lower :: "jsstring \<Rightarrow> jsstring" where
  "ascii_lower s = map (\<lambda>c. if 0x41 \<le> c \<and> c \<le> 0x5A then c + 0x20 else c) s"

text \<open>
  The children of the specification's example: under \<^verbatim>\<open>x/\<close>, the file
  \<^verbatim>\<open>x/a.txt\<close> of 10 bytes and the folder marker \<^verbatim>\<open>x/sub/\<close>, both uploaded on
  1 January 2024.
\<close>

definition example_children :: "r2object list" where
  "example_children =
     [\<lparr>key = js ''x/a.txt'', byte_size = 10, uploaded = 1704067200000\<rparr>,
      \<lparr>key = js ''x/sub/'', byte_size = 0, uploaded = 1704067200000\<rparr>]"

text \<open>
  An environment with a small table of content types, a bucket that fails as \<open>f\<close>
  says, a listing of these two children under \<^verbatim>\<open>x/\<close>, and a URL parser that
  finds no host in \<^verbatim>\<open>//\<close>.
\<close>

definition example_env :: "(nat \<Rightarrow> jsstring option) \<Rightarrow> env" where
  "example_env f =
     \<lparr>corsHeaders = [(js ''Access-Control-Allow-Origin'', Some (js ''*''))],
      mimeTypes = map_of [(js ''txt'', js ''text/plain''),
                          (js ''default'', js ''application/octet-stream'')],
      toLowerCase = ascii_lower,
      fault = f,
      list_objects = (\<lambda>prefix.
        if prefix = js ''x/'' then Some example_children else Some []),
      url_error = (\<lambda>r b.
        if r = js ''//'' then Some (js ''Invalid URL'') else None)\<rparr>"

definition never :: "nat \<Rightarrow> jsstring option" where
  "never n = None"

definition only_at :: "nat \<Rightarrow> nat \<Rightarrow> jsstring option" where
  "only_at k n = (if n = k then Some (js ''boom'') else None)"

definition empty_world :: world where
  "empty_world = \<lparr>bucket = [], store_ops = [], evictions = []\<rparr>"

definition example_request :: "string \<Rightarrow> request" where
  "example_request path =
     \<lparr>url = js ''https://dav.example'' @ js path, origin = js ''https://dav.example'',
      pathname = js path, payload = [0x68, 0x69], form = None\<rparr>"

definition upload_request :: "string list \<Rightarrow> request" where
  "upload_request names =
     (example_request ''/upload'')
       \<lparr>form := Some (map (\<lambda>n. (js ''file'', File (js n) [0x68, 0x69])) names)\<rparr>"

text \<open>The response of \<^verbatim>\<open>handleFileList\<close> to a request for \<^verbatim>\<open>/x/\<close> in that environment.\<close>

definition example_listing :: response where
  \<open>example_listing =
     \<lparr>status = 207,
      headers = [(js ''Access-Control-Allow-Origin'', Some (js ''*'')),
                 (js ''Content-Type'', Some (js ''application/xml; charset=utf-8'')),
                 (js ''DAV'', Some (js ''1, 2''))],
      body = Text (js_lines
        [''<?xml version="1.0" encoding="utf-8" ?>'',
         ''<D:multistatus xmlns:D="DAV:">'',
         ''  <D:response>'',
         ''    <D:href>/x</D:href>'',
         ''    <D:propstat>'',
         ''      <D:prop>'',
         ''        <D:resourcetype><D:collection/></D:resourcetype>'',
         ''        <D:displayname>x</D:displayname>'',
         ''        <D:creationdate>2024-01-01T00:00:00Z</D:creationdate>'',
         ''        <D:getlastmodified>Mon, 01 Jan 2024 00:00:00 GMT</D:getlastmodified>'',
         ''      </D:prop>'',
         ''      <D:status>HTTP/1.1 200 OK</D:status>'',
         ''    </D:propstat>'',
         ''  </D:response>'',
         ''  <D:response>'',
         ''    <D:href>/x/a.txt</D:href>'',
         ''    <D:propstat>'',
         ''      <D:prop>'',
         ''        <D:resourcetype/>'',
         ''        <D:displayname>a.txt</D:displayname>'',
         ''        <D:getcontentlength>10</D:getcontentlength>'',
         ''        <D:getlastmodified>Mon, 01 Jan 2024 00:00:00 GMT</D:getlastmodified>'',
         ''      </D:prop>'',
         ''      <D:status>HTTP/1.1 200 OK</D:status>'',
         ''    </D:propstat>'',
         ''  </D:response>'',
         ''  <D:response>'',
         ''    <D:href>/x/sub/</D:href>'',
         ''    <D:propstat>'',
         ''      <D:prop>'',
         ''        <D:resourcetype><D:collection/></D:resourcetype>'',
         ''        <D:displayname>sub</D:displayname>'',
         ''        <D:getcontentlength>0</D:getcontentlength>'',
         ''        <D:getlastmodified>Mon, 01 Jan 2024 00:00:00 GMT</D:getlastmodified>'',
         ''      </D:prop>'',
         ''      <D:status>HTTP/1.1 200 OK</D:status>'',
         ''    </D:propstat>'',
         ''  </D:response>'',
         ''</D:multistatus>''])\<rparr>\<close>

section \<open>Evaluation and basic facts\<close>

lemmas string_eval = js_def hex_digit_def leading_ones_def is_cont_def utf16_def
  strip_leading_slashes_def trim_def is_white_space_def endsWith_def

lemmas example_eval = example_env_def never_def only_at_def empty_world_def example_request_def
  upload_request_def ascii_lower_def

lemma decode_without_percent:
  "percent \<notin> set s \<Longrightarrow> decodeURIComponent s = Some s"
  by (induction s) auto

lemma str_includes_dropWhile:
  "str_includes (dropWhile P s) t \<Longrightarrow> str_includes s t"
  by (induction s) (auto split: if_splits)

lemma strip_leading_slashes_idem:
  "strip_leading_slashes (strip_leading_slashes s) = strip_leading_slashes s"
  by (simp add: strip_leading_slashes_def)

section \<open>Canonicalization is not idempotent on escaped or blank keys\<close>

text \<open>
  C4, as amended. Whenever the canonicalization of \<^verbatim>\<open>handlePutFile\<close> accepts a
  path, and the key it yields holds no \<open>%\<close> and is not blank after trimming, then
  canonicalizing that key again accepts it and yields the same key.
\<close>

theorem canonicalize_idempotent:
  assumes accepted: "canonicalize raw = Inr (Some k)"
    and no_escape: "percent \<notin> set k"
    and not_blank: "trim k \<noteq> []"
  shows "canonicalize k = Inr (Some k)"
proof -
  from accepted obtain p where p: "decodeURIComponent raw = Some p"
    and ok: "\<not> str_includes p (js ''..'')"
    and k: "k = strip_leading_slashes p"
    by (auto simp: canonicalize_def split: option.splits if_splits)
  have "\<not> str_includes k (js ''..'')"
    using ok str_includes_dropWhile unfolding k strip_leading_slashes_def by blast
  moreover have "strip_leading_slashes k = k"
    unfolding k by (rule strip_leading_slashes_idem)
  moreover have "decodeURIComponent k = Some k"
    using no_escape by (rule decode_without_percent)
  ultimately show ?thesis
    using not_blank by (simp add: canonicalize_def)
qed

theorem canonicalize_idempotent_witness:
  "canonicalize (js ''/a/b.txt'') = Inr (Some (js ''a/b.txt''))
   \<and> percent \<notin> set (js ''a/b.txt'') \<and> trim (js ''a/b.txt'') \<noteq> []
   \<and> canonicalize (js ''a/b.txt'') = Inr (Some (js ''a/b.txt''))"
proof -
  have h1: "canonicalize (js ''/a/b.txt'') = Inr (Some (js ''a/b.txt''))"
    by (simp add: canonicalize_def string_eval)
  have h2: "percent \<notin> set (js ''a/b.txt'')"
    by (simp add: js_def)
  have h3: "trim (js ''a/b.txt'') \<noteq> []"
    by (simp add: string_eval)
  from canonicalize_idempotent [OF h1 h2 h3] h1 h2 h3 show ?thesis
    by blast
qed

text \<open>
  C4 as stated fails: the path \<^verbatim>\<open>/%2561\<close> is accepted with key \<^verbatim>\<open>%61\<close>, and
  that key is canonicalized to \<^verbatim>\<open>a\<close>.
\<close>

theorem canonicalize_not_idempotent:
  "canonicalize (js ''/%2561'') = Inr (Some (js ''%61''))
   \<and> canonicalize (js ''%61'') = Inr (Some (js ''a''))
   \<and> js ''a'' \<noteq> js ''%61''"
  by (simp add: canonicalize_def string_eval)

text \<open>
  Two more ways in which a second pass differs from the first: the key of \<^verbatim>\<open>/\<close>
  is empty and is refused, and the key of \<^verbatim>\<open>/%25\<close> cannot be decoded.
\<close>

lemma canonicalize_root_then_refused:
  "canonicalize (js ''/'') = Inr (Some []) \<and> canonicalize [] = Inr None"
  by (simp add: canonicalize_def string_eval)

lemma canonicalize_percent_then_throws:
  "canonicalize (js ''/%25'') = Inr (Some (js ''%'')) \<and> canonicalize (js ''%'') = Inl URIError"
  by (simp add: canonicalize_def string_eval)

section \<open>Traversal checks of the single-object handlers\<close>

lemma decode_slash:
  "decodeURIComponent (slash # rest) = map_option ((#) slash) (decodeURIComponent rest)"
  by simp

text \<open>
  \<^verbatim>\<open>handlePutFile\<close> and \<^verbatim>\<open>handleDeleteFile\<close> answer 400 and leave the world as it
  is when the decoded path holds \<^verbatim>\<open>..\<close>.
\<close>

lemma handlePutFile_rejects_traversal:
  assumes "decodeURIComponent (pathname request) = Some p" and "str_includes p (js ''..'')"
  shows "handlePutFile e request w = (respond 400 (corsHeaders e) (js ''Invalid path''), w)"
  using assms by (simp add: handlePutFile_def canonicalize_def)

lemma handleDeleteFile_rejects_traversal:
  assumes "pathname request = slash # rest"
    and "decodeURIComponent (pathname request) = Some p" and "str_includes p (js ''..'')"
  shows "handleDeleteFile e request w = (respond 400 [] (js ''Invalid path''), w)"
proof -
  from assms(1,2) obtain p' where p': "decodeURIComponent rest = Some p'" and p: "p = slash # p'"
    by (auto simp: decode_slash)
  from assms(3) p have "str_includes p' (js ''..'')"
    by (simp add: js_def)
  with p' assms(1) show ?thesis
    by (simp add: handleDeleteFile_def)
qed

text \<open>
  C1 at the path \<^verbatim>\<open>/a%2F..%2Fb\<close>, for every environment and world: its decoded form
  holds \<^verbatim>\<open>..\<close>, yet \<^verbatim>\<open>handleGetFile\<close> asks the bucket for the key \<^verbatim>\<open>a/../b\<close>
  and does not answer 400.
\<close>

theorem handleGetFile_traversal_reaches_bucket:
  "decodeURIComponent (js ''/a%2F..%2Fb'') = Some (js ''/a/../b'')
   \<and> str_includes (js ''/a/../b'') (js ''..'')
   \<and> store_ops (snd (handleGetFile e (request\<lparr>pathname := js ''/a%2F..%2Fb''\<rparr>) w))
       = store_ops w @ [OpGet (js ''a/../b'')]
   \<and> status_of (fst (handleGetFile e (request\<lparr>pathname := js ''/a%2F..%2Fb''\<rparr>) w))
       \<noteq> Some 400"
proof -
  have ne: "js ''/a%2F..%2Fb'' \<noteq> js ''/''"
    by (simp add: js_def)
  have 1: "decodeURIComponent (js ''/a%2F..%2Fb'') = Some (js ''/a/../b'')"
    by (simp add: string_eval)
  have 2: "str_includes (js ''/a/../b'') (js ''..'')"
    by (simp add: js_def)
  have 3: "store_ops (snd (handleGetFile e (request\<lparr>pathname := js ''/a%2F..%2Fb''\<rparr>) w))
       = store_ops w @ [OpGet (js ''a/../b'')]"
    using ne by (simp add: handleGetFile_def Let_def bucket_get_def issue_def string_eval
        header_value_ok_def split: option.splits prod.splits sum.splits)
  have 4: "status_of (fst (handleGetFile e (request\<lparr>pathname := js ''/a%2F..%2Fb''\<rparr>) w))
       \<noteq> Some 400"
    using ne by (simp add: handleGetFile_def Let_def bucket_get_def issue_def status_of_def
        respond_def string_eval header_value_ok_def split: option.splits prod.splits sum.splits)
  from 1 2 3 4 show ?thesis by blast
qed

section \<open>The root path as a file key\<close>

text \<open>
  C5 at the path \<^verbatim>\<open>/\<close>, for every environment and world: \<^verbatim>\<open>handlePutFile\<close> puts
  the request body under the empty key and answers 201 (500 when the bucket fails),
  and \<^verbatim>\<open>handleDeleteFile\<close> deletes the empty key and answers 200 (500 when the
  bucket fails); neither answers 400.
\<close>

theorem root_path_is_not_rejected:
  "status_of (fst (handlePutFile e (request\<lparr>pathname := js ''/''\<rparr>) w))
     = Some (if fault e (length (store_ops w)) = None then 201 else 500)
   \<and> store_ops (snd (handlePutFile e (request\<lparr>pathname := js ''/''\<rparr>) w))
     = store_ops w @ [OpPut []]
   \<and> map_option content (map_of (bucket (snd (handlePutFile e (request\<lparr>pathname := js ''/''\<rparr>) w))) [])
     = (if fault e (length (store_ops w)) = None then Some (payload request)
        else map_option content (map_of (bucket w) []))
   \<and> status_of (fst (handleDeleteFile e (request\<lparr>pathname := js ''/''\<rparr>) w))
     = Some (if fault e (length (store_ops w)) = None then 200 else 500)
   \<and> store_ops (snd (handleDeleteFile e (request\<lparr>pathname := js ''/''\<rparr>) w))
     = store_ops w @ [OpDelete []]"
proof -
  have root: "js ''/'' = [slash]" and dots: "js ''..'' \<noteq> []"
    by (simp_all add: js_def)
  have c: "canonicalize [slash] = Inr (Some [])"
    by (simp add: canonicalize_def string_eval)
  have u: "new_URL e (delete_dir []) (origin request) = Inr (NewURL [slash] (origin request))"
    by (simp add: new_URL_def scheme_relative_def delete_dir_def js_def)
  show ?thesis
    by (cases "fault e (length (store_ops w))")
      (simp_all add: handlePutFile_def handleDeleteFile_def root dots c u Let_def bucket_put_def
        bucket_delete_def issue_def status_of_def respond_def waitUntil_delete_def)
qed

section \<open>The listing evicted after a mutation\<close>

lemma lastIndexOf_last_slash:
  assumes "c \<notin> set post"
  shows "lastIndexOf (pre @ c # post) c = int (length pre)"
proof -
  let ?s = "pre @ c # post" and ?n = "length pre"
  let ?P = "\<lambda>i. ?s ! i = c"
  let ?tl = "[Suc ?n ..< ?n + Suc (length post)]"
  have "[0 ..< ?n + Suc (length post)] = [0 ..< ?n] @ [?n ..< ?n + Suc (length post)]"
    by (rule upt_add_eq_append) simp
  also have "[?n ..< ?n + Suc (length post)] = ?n # ?tl"
    by (rule upt_conv_Cons) simp
  finally have idx: "[0 ..< length ?s] = [0 ..< ?n] @ ?n # ?tl"
    by simp
  have none: "filter ?P ?tl = []"
  proof -
    have "?s ! i \<noteq> c" if "i \<in> set ?tl" for i
    proof -
      from that have "Suc ?n \<le> i" and "i - Suc ?n < length post"
        by auto
      then have "?s ! i = post ! (i - Suc ?n)"
        by (simp add: nth_append nth_Cons')
      with assms \<open>i - Suc ?n < length post\<close> show ?thesis
        by (metis nth_mem)
    qed
    then show ?thesis
      by (simp only: filter_empty_conv) blast
  qed
  have "filter ?P (rev [0 ..< length ?s]) = rev (filter ?P [0 ..< length ?s])"
    by (simp only: rev_filter)
  also have "\<dots> = ?n # rev (filter ?P [0 ..< ?n])"
    by (simp only: idx filter_append filter.simps none) simp
  finally show ?thesis
    by (simp add: lastIndexOf_def)
qed

lemma delete_dir_parent_listing: "delete_dir k = parent_listing k"
proof (cases "slash \<in> set k")
  case False
  then have "\<not> str_includes k (js ''/'')"
    by (induction k) (auto simp: js_def)
  with False show ?thesis
    by (simp add: delete_dir_def parent_listing_def)
next
  case True
  then obtain pre post where k: "k = pre @ slash # post" and post: "slash \<notin> set post"
    by (meson split_list_last)
  have inc: "str_includes k (js ''/'')"
    unfolding k by (induction pre) (auto simp: js_def)
  have "dropWhile (\<lambda>c. c \<noteq> slash) (rev post @ slash # rev pre)
        = dropWhile (\<lambda>c. c \<noteq> slash) (slash # rev pre)"
    by (rule dropWhile_append2) (use post in auto)
  then have "dropWhile (\<lambda>c. c \<noteq> slash) (rev k) = slash # rev pre"
    unfolding k by simp
  then have "parent_listing k = js ''/'' @ pre"
    using True by (simp add: parent_listing_def)
  moreover have "delete_dir k = js ''/'' @ pre"
  proof -
    have idx: "lastIndexOf k slash = int (length pre)"
      unfolding k using post by (rule lastIndexOf_last_slash)
    have sub: "substring0 k (int (length pre)) = pre"
      by (simp add: substring0_def k)
    show ?thesis
      by (cases "pre = []") (simp_all add: delete_dir_def inc idx sub Let_def)
  qed
  ultimately show ?thesis by simp
qed

text \<open>
  A successful \<^verbatim>\<open>handleDeleteFile\<close> hands exactly one eviction to
  \<^verbatim>\<open>waitUntil\<close>, for the listing of the key's parent directory, when that
  directory is not read as a host.
\<close>

lemma handleDeleteFile_evicts_parent:
  assumes "decodeURIComponent (drop 1 (pathname request)) = Some k"
    and "\<not> str_includes k (js ''..'')"
    and "fault e (length (store_ops w)) = None"
    and "\<not> scheme_relative (parent_listing k)"
  shows "status_of (fst (handleDeleteFile e request w)) = Some 200
    \<and> evictions (snd (handleDeleteFile e request w))
        = evictions w @ [\<lparr>target = NewURL (parent_listing k) (origin request),
                           cacheTtl = Some 604800\<rparr>]"
  using assms
  by (simp add: handleDeleteFile_def bucket_delete_def issue_def Let_def status_of_def
      respond_def waitUntil_delete_def delete_dir_parent_listing new_URL_def)

text \<open>
  When it is, the object is deleted all the same, but the answer may be 500 with
  nothing evicted: the key of \<^verbatim>\<open>DELETE ///x\<close> is \<^verbatim>\<open>//x\<close>, its directory
  \<^verbatim>\<open>//\<close> names no host.
\<close>

lemma handleDeleteFile_directory_without_host:
  "handleDeleteFile (example_env never) (example_request ''///x'') empty_world
   = (respond 500 [(js ''Access-Control-Allow-Origin'', Some (js ''*''))]
        (js ''Failed to delete file: Invalid URL''),
      empty_world\<lparr>store_ops := [OpDelete (js ''//x'')]\<rparr>)"
  by (simp add: handleDeleteFile_def bucket_delete_def issue_def Let_def delete_dir_def
      lastIndexOf_def substring0_def new_URL_def scheme_relative_def example_eval string_eval)

text \<open>
  \<^verbatim>\<open>handleGetFile\<close> rejects with a \<open>TypeError\<close>, after the bucket has been asked,
  when the object exists and its name cannot be written into the
  \<^verbatim>\<open>Content-Disposition\<close> header.
\<close>

lemma handleGetFile_name_not_a_header_value:
  assumes "decodeURIComponent (drop 1 (pathname request)) = Some k"
    and "pathname request \<noteq> js ''/''"
    and "fault e (length (store_ops w)) = None" and "map_of (bucket w) k = Some file"
    and "\<not> header_value_ok (js ''inline; filename='' @ [dquote] @ k @ [dquote])"
  shows "handleGetFile e request w = (Inl TypeError, w\<lparr>store_ops := store_ops w @ [OpGet k]\<rparr>)"
  using assms by (simp add: handleGetFile_def Let_def bucket_get_def issue_def)

text \<open>
  C2 at the path \<^verbatim>\<open>/docs/a.txt\<close>, for every environment and world: when the
  bucket stores the object, \<^verbatim>\<open>handlePutFile\<close> hands one eviction to
  \<^verbatim>\<open>waitUntil\<close>, and it is for \<^verbatim>\<open>/\<close>, while the parent directory of the key
  \<^verbatim>\<open>docs/a.txt\<close> is \<^verbatim>\<open>/docs\<close>.
\<close>

theorem handlePutFile_evicts_root_listing:
  "canonicalize (js ''/docs/a.txt'') = Inr (Some (js ''docs/a.txt''))
   \<and> evictions (snd (handlePutFile e (request\<lparr>pathname := js ''/docs/a.txt''\<rparr>) w))
       = (if fault e (length (store_ops w)) = None
          then evictions w @ [\<lparr>target = NewURL (js ''/'') (url request), cacheTtl = None\<rparr>]
          else evictions w)
   \<and> parent_listing (js ''docs/a.txt'') = js ''/docs''
   \<and> js ''/'' \<noteq> js ''/docs''"
proof -
  have c: "canonicalize (js ''/docs/a.txt'') = Inr (Some (js ''docs/a.txt''))"
    by (simp add: canonicalize_def string_eval)
  have p: "parent_listing (js ''docs/a.txt'') = js ''/docs''"
    by (simp add: parent_listing_def js_def)
  have n: "js ''/'' \<noteq> js ''/docs''"
    by (simp add: js_def)
  have "evictions (snd (handlePutFile e (request\<lparr>pathname := js ''/docs/a.txt''\<rparr>) w))
       = (if fault e (length (store_ops w)) = None
          then evictions w @ [\<lparr>target = NewURL (js ''/'') (url request), cacheTtl = None\<rparr>]
          else evictions w)"
    by (cases "fault e (length (store_ops w))")
      (simp_all add: handlePutFile_def c Let_def bucket_put_def issue_def waitUntil_delete_def)
  with c p n show ?thesis by blast
qed

section \<open>Bulk upload: one step of the loop, and the loop\<close>

lemma bucket_put_answer [simp]:
  "fst (bucket_put e k d ct w) = fault e (length (store_ops w))"
  by (simp add: bucket_put_def issue_def split: option.splits)

lemma after_item_ops [simp]:
  "store_ops (after_item e r filename d w) = store_ops w @ [OpPut (strip_leading_slashes filename)]"
  by (simp add: after_item_def bucket_put_def issue_def waitUntil_delete_def split: option.splits)

lemma after_item_evictions:
  "evictions (after_item e r filename d w)
   = evictions w @ (if fault e (length (store_ops w)) = None
                    then [\<lparr>target = NewURL (js ''/'') (url r), cacheTtl = Some 604800\<rparr>] else [])"
  by (simp add: after_item_def bucket_put_def issue_def waitUntil_delete_def split: option.splits)

lemma after_item_keys:
  "stored_keys (after_item e r filename d w)
   = (if fault e (length (store_ops w)) = None
      then insert (strip_leading_slashes filename) (stored_keys w) else stored_keys w)"
  by (auto simp: after_item_def bucket_put_def issue_def waitUntil_delete_def stored_keys_def
      image_iff split: option.splits)

lemma upload_file_step:
  assumes "\<not> refused_name filename"
  shows "upload_entries e r ((f, File filename d) # entries) results w
    = upload_entries e r entries
        (results @ [item_report e filename (fault e (length (store_ops w)))])
        (after_item e r filename d w)"
proof -
  obtain a w' where put: "bucket_put e (strip_leading_slashes filename) d
      (mime_or e (extension_of e filename) (mimeTypes e (js ''default''))) w = (a, w')"
    by (cases "bucket_put e (strip_leading_slashes filename) d
      (mime_or e (extension_of e filename) (mimeTypes e (js ''default''))) w")
  have a: "fault e (length (store_ops w)) = a"
    using put by (metis bucket_put_answer fst_conv)
  from assms have ok: "\<not> str_includes filename (js ''..'')" "strip_leading_slashes filename \<noteq> []"
    by (simp_all add: refused_name_def)
  show ?thesis
    by (cases a) (simp_all add: a ok put Let_def item_report_def after_item_def)
qed

lemma upload_refused_step:
  assumes "refused_name filename"
  shows "upload_entries e r ((f, File filename d) # entries) results w
    = (respond 400 []
         (if str_includes filename (js ''..'') then js ''Invalid path'' else js ''Invalid filename''),
       w)"
  using assms by (auto simp: refused_name_def Let_def)

lemma upload_entries_response:
  assumes "accepted_names entries"
  shows "fst (upload_entries e r entries results w)
    = Inr \<lparr>status = 200,
           headers = obj_spread (corsHeaders e)
                       [(js ''Content-Type'', Some (js ''application/json''))],
           body = Json (results @ reports e (length (store_ops w)) (file_items entries))\<rparr>"
  using assms
proof (induction entries arbitrary: results w)
  case Nil
  then show ?case by simp
next
  case (Cons a entries)
  obtain f v where a: "a = (f, v)" by (cases a)
  show ?case
  proof (cases v)
    case (Field x)
    with Cons a show ?thesis by simp
  next
    case (File filename d)
    with Cons.prems a have ok: "\<not> refused_name filename" and rest: "accepted_names entries"
      by simp_all
    show ?thesis
      unfolding a File upload_file_step [OF ok] Cons.IH [OF rest]
      by simp
  qed
qed

lemma upload_entries_induct_accepted [consumes 1, case_names Nil Field File]:
  assumes "accepted_names entries"
    and "P []"
    and "\<And>f x entries. accepted_names entries \<Longrightarrow> P entries \<Longrightarrow> P ((f, Field x) # entries)"
    and "\<And>f filename d entries. \<not> refused_name filename \<Longrightarrow> accepted_names entries
          \<Longrightarrow> P entries \<Longrightarrow> P ((f, File filename d) # entries)"
  shows "P entries"
  using assms(1)
proof (induction entries)
  case Nil
  show ?case by (rule assms(2))
next
  case (Cons a entries)
  obtain f v where a: "a = (f, v)" by (cases a)
  show ?case
  proof (cases v)
    case (Field x)
    with Cons a show ?thesis by (simp add: assms(3))
  next
    case (File filename d)
    with Cons a show ?thesis by (simp add: assms(4))
  qed
qed

lemma upload_entries_ops:
  assumes "accepted_names entries"
  shows "store_ops (snd (upload_entries e r entries results w))
    = store_ops w @ map (\<lambda>(filename, d). OpPut (strip_leading_slashes filename)) (file_items entries)"
  using assms
proof (induction entries arbitrary: results w rule: upload_entries_induct_accepted)
  case (File f filename d entries)
  show ?case
    unfolding upload_file_step [OF File(1)] File.IH by simp
qed simp_all

lemma upload_entries_keys_mono:
  assumes "accepted_names entries"
  shows "stored_keys w \<subseteq> stored_keys (snd (upload_entries e r entries results w))"
  using assms
proof (induction entries arbitrary: results w rule: upload_entries_induct_accepted)
  case (File f filename d entries)
  have "stored_keys w \<subseteq> stored_keys (after_item e r filename d w)"
    by (auto simp: after_item_keys)
  also have "\<dots> \<subseteq> stored_keys (snd (upload_entries e r entries
      (results @ [item_report e filename (fault e (length (store_ops w)))])
      (after_item e r filename d w)))"
    by (rule File.IH)
  finally show ?case
    unfolding upload_file_step [OF File(1)] .
qed simp_all

lemma upload_entries_keeps_stored:
  assumes "accepted_names entries" and "i < length (file_items entries)"
    and "fault e (length (store_ops w) + i) = None"
  shows "strip_leading_slashes (fst (file_items entries ! i))
    \<in> stored_keys (snd (upload_entries e r entries results w))"
  using assms
proof (induction entries arbitrary: results w i rule: upload_entries_induct_accepted)
  case (File f filename d entries)
  let ?w = "after_item e r filename d w"
  let ?rs = "results @ [item_report e filename (fault e (length (store_ops w)))]"
  show ?case
  proof (cases i)
    case 0
    with File.prems have "strip_leading_slashes filename \<in> stored_keys ?w"
      by (simp add: after_item_keys)
    with upload_entries_keys_mono [OF File(2), of ?w e r ?rs] 0 show ?thesis
      unfolding upload_file_step [OF File(1)] by auto
  next
    case (Suc j)
    with File.prems have "j < length (file_items entries)"
      and "fault e (length (store_ops ?w) + j) = None"
      by simp_all
    from File.IH [OF this] Suc show ?thesis
      unfolding upload_file_step [OF File(1)] by simp
  qed
qed simp_all

lemma stored_positions_Suc:
  "length (stored_positions e n (Suc k))
   = (if fault e n = None then 1 else 0) + length (stored_positions e (Suc n) k)"
proof -
  have "[0 ..< Suc k] = 0 # map Suc [0 ..< k]"
    by (simp add: upt_conv_Cons map_Suc_upt del: upt_Suc)
  then show ?thesis
    by (simp add: stored_positions_def filter_map comp_def del: upt_Suc)
qed

lemma upload_entries_evictions:
  assumes "accepted_names entries"
  shows "evictions (snd (upload_entries e r entries results w))
    = evictions w
      @ replicate (length (stored_positions e (length (store_ops w)) (length (file_items entries))))
          \<lparr>target = NewURL (js ''/'') (url r), cacheTtl = Some 604800\<rparr>"
  using assms
proof (induction entries arbitrary: results w rule: upload_entries_induct_accepted)
  case Nil
  show ?case by (simp add: stored_positions_def)
next
  case (File f filename d entries)
  show ?case
    unfolding upload_file_step [OF File(1)] File.IH
    by (simp add: after_item_evictions stored_positions_Suc replicate_append_same)
qed simp_all

lemma upload_entries_refused:
  assumes "accepted_names pre" and "refused_name bad"
  shows "upload_entries e r (pre @ (f, File bad d) # rest) results w
    = (respond 400 []
         (if str_includes bad (js ''..'') then js ''Invalid path'' else js ''Invalid filename''),
       snd (upload_entries e r pre results w))"
  using assms(1)
proof (induction pre arbitrary: results w rule: upload_entries_induct_accepted)
  case Nil
  show ?case by (simp only: append_Nil upload_refused_step [OF assms(2)]) simp
next
  case (File f' filename d' entries)
  show ?case
    unfolding append_Cons upload_file_step [OF File(1)] File.IH ..
qed simp_all

lemma reports_length [simp]: "length (reports e n items) = length items"
  by (induction items arbitrary: n) auto

lemma reports_nth:
  "i < length items \<Longrightarrow> reports e n items ! i = item_report e (fst (items ! i)) (fault e (n + i))"
proof (induction items arbitrary: n i)
  case (Cons a items)
  obtain filename d where a: "a = (filename, d)" by (cases a)
  from Cons show ?case by (cases i) (simp_all add: a)
qed simp

lemma only_slashes_no_traversal:
  "strip_leading_slashes s = [] \<Longrightarrow> \<not> str_includes s (js ''..'')"
  by (induction s) (auto simp: strip_leading_slashes_def js_def split: if_splits)

lemma upload_entries_form:
  "upload_entries e (request\<lparr>form := fm\<rparr>) entries results w
   = upload_entries e request entries results w"
  by (induction e request entries results w rule: upload_entries.induct)
    (simp_all add: Let_def split: prod.splits option.splits)

lemmas upload_eval = handleMultpleUploads_def Let_def bucket_put_def issue_def
  waitUntil_delete_def respond_def status_of_def body_of_def extension_of_def mime_or_def
  success_entry_def failure_entry_def refused_name_def stored_keys_def

section \<open>Bulk upload: what is reported\<close>

lemma failure_entry_fields:
  "json_field (failure_entry filename msg) ''filename'' = Some filename"
  "json_field (failure_entry filename msg) ''status'' = Some (js ''failed'')"
  "json_field (failure_entry filename msg) ''error'' = Some msg"
  by (simp_all add: json_field_def json_fields_def failure_entry_def List.map_filter_simps js_def)

lemma success_entry_fields:
  "json_field (success_entry sanitizedFilename contentType) ''sanitizedFilename''
     = Some sanitizedFilename"
  "json_field (success_entry sanitizedFilename contentType) ''status'' = Some (js ''success'')"
  by (simp_all add: json_field_def json_fields_def success_entry_def List.map_filter_simps js_def)

text \<open>
  C6, as amended. When no file item of the form has a name that holds \<^verbatim>\<open>..\<close> or
  is empty without its leading slashes, the response has status 200 and its body is
  an array with one entry per file item, in order. The entry of an item whose
  \<^verbatim>\<open>put\<close> failed has the status \<^verbatim>\<open>failed\<close>, the message of the error as
  \<^verbatim>\<open>error\<close> and the name of the file as \<^verbatim>\<open>filename\<close>; the entry of any other
  item has the status \<^verbatim>\<open>success\<close> and the name without its leading slashes as
  \<^verbatim>\<open>sanitizedFilename\<close>, and that key is in the bucket at the end. Every file item
  is put, whatever happened to the items before it.
\<close>

theorem bulk_upload_reports_every_item:
  assumes "form request = Some entries" and "accepted_names entries"
    and "items = file_items entries" and "n = length (store_ops w)"
    and "out = handleMultpleUploads e request w"
  shows "status_of (fst out) = Some 200
    \<and> (\<exists>rs. body_of (fst out) = Some (Json rs)
          \<and> length rs = length items
          \<and> (\<forall>i<length items. \<forall>msg. fault e (n + i) = Some msg
                \<longrightarrow> json_field (rs ! i) ''status'' = Some (js ''failed'')
                  \<and> json_field (rs ! i) ''error'' = Some msg
                  \<and> json_field (rs ! i) ''filename'' = Some (fst (items ! i)))
          \<and> (\<forall>i<length items. fault e (n + i) = None
                \<longrightarrow> json_field (rs ! i) ''status'' = Some (js ''success'')
                  \<and> json_field (rs ! i) ''sanitizedFilename''
                      = Some (strip_leading_slashes (fst (items ! i)))
                  \<and> strip_leading_slashes (fst (items ! i)) \<in> stored_keys (snd out)))
    \<and> store_ops (snd out)
        = store_ops w @ map (\<lambda>(filename, d). OpPut (strip_leading_slashes filename)) items"
proof -
  let ?rs = "reports e n items"
  have out: "out = upload_entries e request entries [] w"
    using assms(1,5) by (simp add: handleMultpleUploads_def)
  have status: "status_of (fst out) = Some 200" and body: "body_of (fst out) = Some (Json ?rs)"
    unfolding out upload_entries_response [OF assms(2)] assms(3,4)
    by (simp_all add: status_of_def body_of_def)
  have ops: "store_ops (snd out)
        = store_ops w @ map (\<lambda>(filename, d). OpPut (strip_leading_slashes filename)) items"
    unfolding out assms(3) by (rule upload_entries_ops [OF assms(2)])
  have stored: "strip_leading_slashes (fst (items ! i)) \<in> stored_keys (snd out)"
    if "i < length items" "fault e (n + i) = None" for i
    using that unfolding out assms(3,4) by (intro upload_entries_keeps_stored [OF assms(2)])
  have failed: "\<forall>i<length items. \<forall>msg. fault e (n + i) = Some msg
                \<longrightarrow> json_field (?rs ! i) ''status'' = Some (js ''failed'')
                  \<and> json_field (?rs ! i) ''error'' = Some msg
                  \<and> json_field (?rs ! i) ''filename'' = Some (fst (items ! i))"
    by (simp add: reports_nth item_report_def failure_entry_fields)
  have succeeded: "\<forall>i<length items. fault e (n + i) = None
                \<longrightarrow> json_field (?rs ! i) ''status'' = Some (js ''success'')
                  \<and> json_field (?rs ! i) ''sanitizedFilename''
                      = Some (strip_leading_slashes (fst (items ! i)))
                  \<and> strip_leading_slashes (fst (items ! i)) \<in> stored_keys (snd out)"
    using stored by (simp add: reports_nth item_report_def success_entry_fields)
  have len: "length ?rs = length items"
    by simp
  from body len failed succeeded have "\<exists>rs. body_of (fst out) = Some (Json rs)
          \<and> length rs = length items
          \<and> (\<forall>i<length items. \<forall>msg. fault e (n + i) = Some msg
                \<longrightarrow> json_field (rs ! i) ''status'' = Some (js ''failed'')
                  \<and> json_field (rs ! i) ''error'' = Some msg
                  \<and> json_field (rs ! i) ''filename'' = Some (fst (items ! i)))
          \<and> (\<forall>i<length items. fault e (n + i) = None
                \<longrightarrow> json_field (rs ! i) ''status'' = Some (js ''success'')
                  \<and> json_field (rs ! i) ''sanitizedFilename''
                      = Some (strip_leading_slashes (fst (items ! i)))
                  \<and> strip_leading_slashes (fst (items ! i)) \<in> stored_keys (snd out))"
    by (intro exI [of _ ?rs] conjI)
  with status ops show ?thesis
    by (intro conjI)
qed

theorem bulk_upload_reports_every_item_witness:
  "form (upload_request [''a.txt'', ''b.txt'', ''c.txt''])
     = Some (map (\<lambda>n. (js ''file'', File (js n) [0x68, 0x69])) [''a.txt'', ''b.txt'', ''c.txt''])
   \<and> accepted_names (map (\<lambda>n. (js ''file'', File (js n) [0x68, 0x69])) [''a.txt'', ''b.txt'', ''c.txt''])
   \<and> fault (example_env (only_at 1)) 1 = Some (js ''boom'')
   \<and> status_of (fst (handleMultpleUploads (example_env (only_at 1))
                        (upload_request [''a.txt'', ''b.txt'', ''c.txt'']) empty_world)) = Some 200
   \<and> body_of (fst (handleMultpleUploads (example_env (only_at 1))
                        (upload_request [''a.txt'', ''b.txt'', ''c.txt'']) empty_world))
       = Some (Json [[(js ''sanitizedFilename'', Some (js ''a.txt'')),
                      (js ''status'', Some (js ''success'')),
                      (js ''contentType'', Some (js ''text/plain''))],
                     [(js ''filename'', Some (js ''b.txt'')),
                      (js ''status'', Some (js ''failed'')),
                      (js ''error'', Some (js ''boom''))],
                     [(js ''sanitizedFilename'', Some (js ''c.txt'')),
                      (js ''status'', Some (js ''success'')),
                      (js ''contentType'', Some (js ''text/plain''))]])
   \<and> stored_keys (snd (handleMultpleUploads (example_env (only_at 1))
                        (upload_request [''a.txt'', ''b.txt'', ''c.txt'']) empty_world))
       = {js ''a.txt'', js ''c.txt''}
   \<and> store_ops (snd (handleMultpleUploads (example_env (only_at 1))
                        (upload_request [''a.txt'', ''b.txt'', ''c.txt'']) empty_world))
       = [OpPut (js ''a.txt''), OpPut (js ''b.txt''), OpPut (js ''c.txt'')]"
proof -
  let ?entries = "map (\<lambda>n. (js ''file'', File (js n) [0x68, 0x69])) [''a.txt'', ''b.txt'', ''c.txt'']"
  let ?out = "handleMultpleUploads (example_env (only_at 1))
                (upload_request [''a.txt'', ''b.txt'', ''c.txt'']) empty_world"
  have h1: "form (upload_request [''a.txt'', ''b.txt'', ''c.txt'']) = Some ?entries"
    by (simp add: example_eval)
  have h2: "accepted_names ?entries"
    by (simp add: refused_name_def string_eval)
  have f: "fault (example_env (only_at 1)) 1 = Some (js ''boom'')"
    by (simp add: example_eval)
  note T = bulk_upload_reports_every_item [OF h1 h2 refl refl refl,
      of "example_env (only_at 1)"]
  from T have s: "status_of (fst ?out) = Some 200"
    by blast
  have b: "body_of (fst ?out)
       = Some (Json [[(js ''sanitizedFilename'', Some (js ''a.txt'')),
                      (js ''status'', Some (js ''success'')),
                      (js ''contentType'', Some (js ''text/plain''))],
                     [(js ''filename'', Some (js ''b.txt'')),
                      (js ''status'', Some (js ''failed'')),
                      (js ''error'', Some (js ''boom''))],
                     [(js ''sanitizedFilename'', Some (js ''c.txt'')),
                      (js ''status'', Some (js ''success'')),
                      (js ''contentType'', Some (js ''text/plain''))]])"
    by (simp add: example_eval upload_eval string_eval)
  have k: "stored_keys (snd ?out) = {js ''a.txt'', js ''c.txt''}"
    by (simp add: example_eval upload_eval string_eval insert_commute)
  have o: "store_ops (snd ?out) = [OpPut (js ''a.txt''), OpPut (js ''b.txt''), OpPut (js ''c.txt'')]"
    by (simp add: example_eval upload_eval string_eval)
  from h1 h2 f s b k o show ?thesis
    by blast
qed

text \<open>
  C6 as stated fails: the \<^verbatim>\<open>put\<close> of the first item fails, the name of the second
  item is empty without its leading slash, and the response is 400 with a text
  instead of 200 with an array; the failure of the first item is reported nowhere.
\<close>

theorem bulk_upload_empty_name_after_store_failure:
  "fault (example_env (only_at 0)) 0 = Some (js ''boom'')
   \<and> \<not> str_includes (js ''/'') (js ''..'')
   \<and> status_of (fst (handleMultpleUploads (example_env (only_at 0))
                        (upload_request [''a.txt'', ''/'']) empty_world)) = Some 400
   \<and> body_of (fst (handleMultpleUploads (example_env (only_at 0))
                        (upload_request [''a.txt'', ''/'']) empty_world))
       = Some (Text (js ''Invalid filename''))
   \<and> store_ops (snd (handleMultpleUploads (example_env (only_at 0))
                        (upload_request [''a.txt'', ''/'']) empty_world))
       = [OpPut (js ''a.txt'')]"
  by (simp add: example_eval upload_eval string_eval)

section \<open>Bulk upload: names that end the request\<close>

text \<open>
  C7, as amended. A file item whose name is empty without its leading slashes, coming
  after items with accepted names, ends the whole request with status 400 and the
  text \<^verbatim>\<open>Invalid filename\<close>; the world is left as the items before it made it, so
  no later item is put.
\<close>

theorem bulk_upload_empty_name_rejects_request:
  assumes "form request = Some (pre @ (f, File filename d) # rest)"
    and "accepted_names pre"
    and "strip_leading_slashes filename = []"
  shows "fst (handleMultpleUploads e request w) = respond 400 [] (js ''Invalid filename'')
    \<and> snd (handleMultpleUploads e request w)
        = snd (handleMultpleUploads e (request\<lparr>form := Some pre\<rparr>) w)
    \<and> store_ops (snd (handleMultpleUploads e request w))
        = store_ops w
          @ map (\<lambda>(filename, d). OpPut (strip_leading_slashes filename)) (file_items pre)"
proof -
  from assms(3) have bad: "refused_name filename" and nt: "\<not> str_includes filename (js ''..'')"
    by (simp_all add: refused_name_def only_slashes_no_traversal)
  have "handleMultpleUploads e request w
      = (respond 400 [] (js ''Invalid filename''), snd (upload_entries e request pre [] w))"
    using assms(1) nt by (simp add: handleMultpleUploads_def upload_entries_refused [OF assms(2) bad])
  moreover have "handleMultpleUploads e (request\<lparr>form := Some pre\<rparr>) w
      = upload_entries e request pre [] w"
    by (simp add: handleMultpleUploads_def upload_entries_form)
  ultimately show ?thesis
    by (simp add: upload_entries_ops [OF assms(2)])
qed

theorem bulk_upload_empty_name_rejects_request_witness:
  "form (upload_request [''a.txt'', ''/'', ''c.txt''])
     = Some ([(js ''file'', File (js ''a.txt'') [0x68, 0x69])]
             @ (js ''file'', File (js ''/'') [0x68, 0x69])
             # [(js ''file'', File (js ''c.txt'') [0x68, 0x69])])
   \<and> accepted_names [(js ''file'', File (js ''a.txt'') [0x68, 0x69])]
   \<and> strip_leading_slashes (js ''/'') = []
   \<and> fst (handleMultpleUploads (example_env never)
              (upload_request [''a.txt'', ''/'', ''c.txt'']) empty_world)
       = respond 400 [] (js ''Invalid filename'')
   \<and> store_ops (snd (handleMultpleUploads (example_env never)
              (upload_request [''a.txt'', ''/'', ''c.txt'']) empty_world))
       = [OpPut (js ''a.txt'')]"
proof -
  have h1: "form (upload_request [''a.txt'', ''/'', ''c.txt''])
     = Some ([(js ''file'', File (js ''a.txt'') [0x68, 0x69])]
             @ (js ''file'', File (js ''/'') [0x68, 0x69])
             # [(js ''file'', File (js ''c.txt'') [0x68, 0x69])])"
    by (simp add: example_eval)
  have h2: "accepted_names [(js ''file'', File (js ''a.txt'') [0x68, 0x69])]"
    by (simp add: refused_name_def string_eval)
  have h3: "strip_leading_slashes (js ''/'') = []"
    by (simp add: string_eval)
  from bulk_upload_empty_name_rejects_request [OF h1 h2 h3, of "example_env never" empty_world]
  have r: "fst (handleMultpleUploads (example_env never)
              (upload_request [''a.txt'', ''/'', ''c.txt'']) empty_world)
       = respond 400 [] (js ''Invalid filename'')"
    by blast
  have o: "store_ops (snd (handleMultpleUploads (example_env never)
              (upload_request [''a.txt'', ''/'', ''c.txt'']) empty_world))
       = [OpPut (js ''a.txt'')]"
    by (simp add: example_eval upload_eval string_eval)
  from h1 h2 h3 r o show ?thesis
    by blast
qed

text \<open>
  C7 as stated fails: with the name \<^verbatim>\<open>/\<close> first, the request is answered 400 and
  the item after it is never put.
\<close>

theorem bulk_upload_empty_name_fails_request:
  "strip_leading_slashes (js ''/'') = []
   \<and> status_of (fst (handleMultpleUploads (example_env never)
                        (upload_request [''/'', ''c.txt'']) empty_world)) = Some 400
   \<and> store_ops (snd (handleMultpleUploads (example_env never)
                        (upload_request [''/'', ''c.txt'']) empty_world)) = []"
  by (simp add: example_eval upload_eval string_eval)

lemma accepted_prefix_split:
  assumes "(f, File filename d) \<in> set entries" and "refused_name filename"
  shows "\<exists>f' bad d' rest. entries = accepted_prefix entries @ (f', File bad d') # rest
    \<and> refused_name bad \<and> accepted_names (accepted_prefix entries)"
  using assms(1)
proof (induction entries rule: accepted_prefix.induct)
  case 1
  then show ?case by simp
next
  case (2 fieldName v entries)
  then show ?case by auto
next
  case (3 fieldName name' d' entries)
  show ?case
  proof (cases "refused_name name'")
    case True
    then show ?thesis by auto
  next
    case False
    with 3 assms(2) show ?thesis by auto
  qed
qed

text \<open>
  C10. When some file item of the form has a name that holds \<^verbatim>\<open>..\<close>, the request is
  answered with status 400 and a plain text, which reports no item. The world is left
  as the entries before the first refused name made it: each of these items whose
  \<^verbatim>\<open>put\<close> succeeded is in the bucket, and one eviction for each of them has been
  handed to \<^verbatim>\<open>waitUntil\<close>.
\<close>

theorem bulk_upload_traversal_after_stores:
  assumes "form request = Some entries"
    and "(f, File filename d) \<in> set entries" and "str_includes filename (js ''..'')"
    and "out = handleMultpleUploads e request w"
    and "pre = accepted_prefix entries"
  shows "status_of (fst out) = Some 400
    \<and> body_of (fst out)
        \<in> {Some (Text (js ''Invalid path'')), Some (Text (js ''Invalid filename''))}
    \<and> snd out = snd (handleMultpleUploads e (request\<lparr>form := Some pre\<rparr>) w)
    \<and> (\<forall>i<length (file_items pre). fault e (length (store_ops w) + i) = None
          \<longrightarrow> strip_leading_slashes (fst (file_items pre ! i)) \<in> stored_keys (snd out))
    \<and> evictions (snd out)
        = evictions w
          @ replicate
              (length (stored_positions e (length (store_ops w)) (length (file_items pre))))
              \<lparr>target = NewURL (js ''/'') (url request), cacheTtl = Some 604800\<rparr>"
proof -
  from assms(3) have "refused_name filename"
    by (simp add: refused_name_def)
  from accepted_prefix_split [OF assms(2) this] obtain f' bad d' rest where
    split: "entries = pre @ (f', File bad d') # rest"
    and bad: "refused_name bad" and ok: "accepted_names pre"
    unfolding assms(5) by blast
  have out: "out = (respond 400 []
         (if str_includes bad (js ''..'') then js ''Invalid path'' else js ''Invalid filename''),
       snd (upload_entries e request pre [] w))"
    using assms(1,4) upload_entries_refused [OF ok bad, of e request f' d' rest "[]" w]
    by (simp add: handleMultpleUploads_def split)
  have pre: "handleMultpleUploads e (request\<lparr>form := Some pre\<rparr>) w
      = upload_entries e request pre [] w"
    by (simp add: handleMultpleUploads_def upload_entries_form)
  have "strip_leading_slashes (fst (file_items pre ! i)) \<in> stored_keys (snd out)"
    if "i < length (file_items pre)" "fault e (length (store_ops w) + i) = None" for i
    using that unfolding out snd_conv by (intro upload_entries_keeps_stored [OF ok])
  then show ?thesis
    by (simp add: out pre upload_entries_evictions [OF ok] status_of_def body_of_def respond_def)
qed

theorem bulk_upload_traversal_after_stores_witness:
  "form (upload_request [''a.txt'', ''x..y'', ''c.txt''])
     = Some (map (\<lambda>n. (js ''file'', File (js n) [0x68, 0x69])) [''a.txt'', ''x..y'', ''c.txt''])
   \<and> (js ''file'', File (js ''x..y'') [0x68, 0x69])
       \<in> set (map (\<lambda>n. (js ''file'', File (js n) [0x68, 0x69])) [''a.txt'', ''x..y'', ''c.txt''])
   \<and> str_includes (js ''x..y'') (js ''..'')
   \<and> [(js ''file'', File (js ''a.txt'') [0x68, 0x69])]
       = accepted_prefix
           (map (\<lambda>n. (js ''file'', File (js n) [0x68, 0x69])) [''a.txt'', ''x..y'', ''c.txt''])
   \<and> fst (handleMultpleUploads (example_env never)
              (upload_request [''a.txt'', ''x..y'', ''c.txt'']) empty_world)
       = respond 400 [] (js ''Invalid path'')
   \<and> js ''a.txt'' \<in> stored_keys (snd (handleMultpleUploads (example_env never)
              (upload_request [''a.txt'', ''x..y'', ''c.txt'']) empty_world))
   \<and> evictions (snd (handleMultpleUploads (example_env never)
              (upload_request [''a.txt'', ''x..y'', ''c.txt'']) empty_world))
       = [\<lparr>target = NewURL (js ''/'') (js ''https://dav.example/upload''),
           cacheTtl = Some 604800\<rparr>]"
proof -
  let ?entries = "map (\<lambda>n. (js ''file'', File (js n) [0x68, 0x69])) [''a.txt'', ''x..y'', ''c.txt'']"
  let ?out = "handleMultpleUploads (example_env never)
              (upload_request [''a.txt'', ''x..y'', ''c.txt'']) empty_world"
  have h1: "form (upload_request [''a.txt'', ''x..y'', ''c.txt'']) = Some ?entries"
    by (simp add: example_eval)
  have h2: "(js ''file'', File (js ''x..y'') [0x68, 0x69]) \<in> set ?entries"
    by simp
  have h3: "str_includes (js ''x..y'') (js ''..'')"
    by (simp add: js_def)
  have h5: "[(js ''file'', File (js ''a.txt'') [0x68, 0x69])] = accepted_prefix ?entries"
    by (simp add: refused_name_def string_eval)
  note T = bulk_upload_traversal_after_stores [OF h1 h2 h3 refl h5,
      of "example_env never" empty_world]
  from T have e: "evictions (snd ?out)
        = evictions empty_world
          @ replicate
              (length (stored_positions (example_env never) (length (store_ops empty_world))
                 (length (file_items [(js ''file'', File (js ''a.txt'') [0x68, 0x69])]))))
              \<lparr>target = NewURL (js ''/'') (url (upload_request [''a.txt'', ''x..y'', ''c.txt''])),
                cacheTtl = Some 604800\<rparr>"
    by blast
  have v: "evictions (snd ?out)
       = [\<lparr>target = NewURL (js ''/'') (js ''https://dav.example/upload''),
           cacheTtl = Some 604800\<rparr>]"
    unfolding e by (simp add: example_eval stored_positions_def js_def)
  have r: "fst ?out = respond 400 [] (js ''Invalid path'')"
    by (simp add: example_eval upload_eval string_eval)
  have k: "js ''a.txt'' \<in> stored_keys (snd ?out)"
    by (simp add: example_eval upload_eval string_eval)
  from h1 h2 h3 h5 r k v show ?thesis
    by blast
qed

section \<open>Bulk upload: the fields of an entry\<close>

text \<open>
  C9 at a form with the single file \<^verbatim>\<open>a.txt\<close>, for every environment and world:
  when the \<^verbatim>\<open>put\<close> succeeds the entry has the properties
  \<^verbatim>\<open>sanitizedFilename\<close>, \<^verbatim>\<open>status\<close> and \<^verbatim>\<open>contentType\<close>, none of which
  is named \<^verbatim>\<open>filename\<close>; the failure entry does have \<^verbatim>\<open>filename\<close>.
\<close>

theorem success_entry_has_no_filename_field:
  "body_of (fst (handleMultpleUploads e
        (request\<lparr>form := Some [(f, File (js ''a.txt'') d)]\<rparr>) w))
     = Some (Json [case fault e (length (store_ops w)) of
                     None \<Rightarrow> [(js ''sanitizedFilename'', Some (js ''a.txt'')),
                               (js ''status'', Some (js ''success'')),
                               (js ''contentType'',
                                mime_or e (extension_of e (js ''a.txt''))
                                  (mimeTypes e (js ''default'')))]
                   | Some msg \<Rightarrow> [(js ''filename'', Some (js ''a.txt'')),
                                  (js ''status'', Some (js ''failed'')),
                                  (js ''error'', Some msg)]])
   \<and> js ''filename'' \<notin> {js ''sanitizedFilename'', js ''status'', js ''contentType''}"
proof -
  have ok: "\<not> str_includes (js ''a.txt'') (js ''..'')" "strip_leading_slashes (js ''a.txt'') = js ''a.txt''"
    "js ''a.txt'' \<noteq> []"
    by (simp_all add: string_eval)
  have "js ''filename'' \<notin> {js ''sanitizedFilename'', js ''status'', js ''contentType''}"
    by (simp add: js_def)
  then show ?thesis
    by (cases "fault e (length (store_ops w))")
      (simp_all add: handleMultpleUploads_def ok Let_def bucket_put_def issue_def body_of_def
        success_entry_def failure_entry_def del: insert_iff)
qed

section \<open>Dates\<close>

text \<open>
  The text of a date once the civil date is known, three dates, the bounds of
  \<open>YearFromDay\<close>, and from them the format of every date with a year of four digits.
\<close>

lemma toUTCString_date:
  assumes "\<bar>t\<bar> \<le> 8640000000000000"
    and "civil (t div 86400000) = (y, m, d)"
  shows "toUTCString t
        = js (day_names ! nat ((t div 86400000 + 4) mod 7)) @ js '', ''
          @ zero_padded 2 d @ js '' '' @ js (month_names ! m) @ js '' ''
          @ (if y < 0 then js ''-'' else []) @ zero_padded 4 (nat \<bar>y\<bar>) @ js '' ''
          @ zero_padded 2 (nat (t mod 86400000 div 3600000)) @ js '':''
          @ zero_padded 2 (nat (t mod 86400000 div 60000 mod 60)) @ js '':''
          @ zero_padded 2 (nat (t mod 86400000 div 1000 mod 60)) @ js '' GMT''"
proof -
  have valid: "\<not> 8640000000000000 < \<bar>t\<bar>"
    using assms(1) by simp
  show ?thesis
    unfolding toUTCString_def Let_def assms(2)
    by (simp only: valid if_False prod.case)
qed

lemma civil_examples:
  "civil (1704067200000 div 86400000) = (2024, 0, 1)"
  "civil (- 62167219200000 div 86400000) = (0, 0, 1)"
  "civil (253402300799999 div 86400000) = (9999, 11, 31)"
  by code_simp+

lemma replicate_small: "replicate 2 x = [x, x]" "replicate 3 x = [x, x, x]"
  by (simp_all add: numeral_2_eq_2 numeral_3_eq_3)

lemmas date_eval = zero_padded_def number_string.simps day_names_def month_names_def digit_def
  replicate_small

lemma example_date: "toUTCString 1704067200000 = js ''Mon, 01 Jan 2024 00:00:00 GMT''"
  by (subst toUTCString_date [OF _ civil_examples(1)]) (simp_all add: date_eval js_def)

lemma first_date: "toUTCString (- 62167219200000) = js ''Sat, 01 Jan 0000 00:00:00 GMT''"
  by (subst toUTCString_date [OF _ civil_examples(2)]) (simp_all add: date_eval js_def)

lemma last_date: "toUTCString 253402300799999 = js ''Fri, 31 Dec 9999 23:59:59 GMT''"
  by (subst toUTCString_date [OF _ civil_examples(3)]) (simp_all add: date_eval js_def)

text \<open>
  Beyond these years the text is not in the format: a time value that is not a date,
  and the first millisecond of the year 10000.
\<close>

lemma rfc1123_examples:
  "is_rfc1123 (js ''Sun, 06 Nov 1994 08:49:37 GMT'')"
  "\<not> is_rfc1123 (js ''Invalid Date'')"
  "\<not> is_rfc1123 (js ''Sat, 01 Jan 10000 00:00:00 GMT'')"
  by code_simp+

lemma civil_year_10000: "civil (253402300800000 div 86400000) = (10000, 0, 1)"
  by code_simp

lemma dates_without_the_format:
  "toUTCString 8640000000000001 = js ''Invalid Date''"
  "toUTCString 253402300800000 = js ''Sat, 01 Jan 10000 00:00:00 GMT''"
  "\<not> four_digit_year 8640000000000001" "\<not> four_digit_year 253402300800000"
proof -
  show "toUTCString 8640000000000001 = js ''Invalid Date''"
    by (simp add: toUTCString_def)
  show "toUTCString 253402300800000 = js ''Sat, 01 Jan 10000 00:00:00 GMT''"
    by (subst toUTCString_date [OF _ civil_year_10000]) (simp_all add: date_eval js_def)
qed (simp_all add: four_digit_year_def)























section \<open>The listing: the loop, the templates and the display names\<close>

lemma render_objects_those:
  "render_objects objs acc = map_option (\<lambda>ps. acc @ concat ps) (those (map render_object objs))"
proof (induction objs arbitrary: acc)
  case (Cons obj objs)
  show ?case
    by (cases "render_object obj") (simp_all add: Cons.IH option.map_comp comp_def)
qed simp

lemma those_Some_nth:
  assumes "those xs = Some ys"
  shows "length ys = length xs \<and> (\<forall>i<length xs. xs ! i = Some (ys ! i))"
  using assms
proof (induction xs arbitrary: ys)
  case (Cons x xs)
  from Cons.prems obtain y ys' where x: "x = Some y" and t: "those xs = Some ys'" and ys: "ys = y # ys'"
    by (auto split: option.splits)
  from Cons.IH [OF t] x ys show ?case
    by (auto simp: nth_Cons')
qed simp

lemma handleFileList_207:
  assumes "fst (handleFileList e request w) = Inr resp" and "status resp = 207"
  shows "\<exists>href pieces.
      encodeURI (normalize_path (pathname request)) = Some href
    \<and> those (map render_object (listed_objects e request)) = Some pieces
    \<and> body resp = Text (collection_response href
                           (collection_displayname (normalize_path (pathname request)))
                         @ concat pieces @ js_lines ['''', ''</D:multistatus>''])"
  using assms
  by (auto simp: handleFileList_def Let_def issue_def xml_error_def render_objects_those
      listed_objects_def split: option.splits prod.splits)

lemma str_split_nonempty [simp]: "str_split sep s \<noteq> []"
  by (induction s) (auto split: list.splits)

lemma str_split_append:
  "str_split sep (a @ sep # b) = str_split sep a @ str_split sep b"
  by (induction a) (auto split: list.splits)

lemma str_split_no_separator:
  "sep \<notin> set s \<Longrightarrow> str_split sep s = [s]"
  by (induction s) auto

lemma str_split_separators:
  "str_split sep (replicate n sep) = replicate (Suc n) []"
  by (induction n) auto

lemma collection_displayname_segment:
  assumes "path = pre @ slash # seg" and "slash \<notin> set seg" and "path \<noteq> js ''/''"
  shows "collection_displayname path = seg"
  using assms
  by (simp add: collection_displayname_def str_split_append str_split_no_separator)

lemma object_displayname_segment:
  assumes "k = pre @ seg @ replicate n slash" and "seg \<noteq> []" and "slash \<notin> set seg"
    and "pre = [] \<or> last pre = slash"
  shows "object_displayname k = seg"
proof -
  have tail: "filter (\<lambda>x. x \<noteq> []) (str_split slash (seg @ replicate n slash)) = [seg]"
  proof (cases n)
    case 0
    with assms(2,3) show ?thesis
      by (simp add: str_split_no_separator)
  next
    case (Suc m)
    then have "seg @ replicate n slash = seg @ slash # replicate m slash"
      by simp
    with assms(2,3) show ?thesis
      by (simp add: str_split_append str_split_no_separator str_split_separators)
  qed
  have "\<exists>front. filter (\<lambda>x. x \<noteq> []) (str_split slash k) = front @ [seg]"
  proof (cases "pre = []")
    case True
    with tail assms(1) show ?thesis by simp
  next
    case False
    with assms(4) obtain pre' where "pre = pre' @ [slash]"
      by (metis append_butlast_last_id)
    then have "k = pre' @ slash # (seg @ replicate n slash)"
      using assms(1) by simp
    then show ?thesis
      by (simp add: str_split_append tail)
  qed
  then obtain front where "filter (\<lambda>x. x \<noteq> []) (str_split slash k) = front @ [seg]" ..
  with assms(2) show ?thesis
    by (simp add: object_displayname_def pop_def)
qed

lemma render_object_Some:
  assumes "render_object obj = Some piece"
  shows "\<exists>h. encodeURI (js ''/'' @ key obj) = Some h
    \<and> piece = object_response h (endsWith (key obj) (js ''/'')) (object_displayname (key obj))
                (number_string (byte_size obj)) (toUTCString (uploaded obj))"
  using assms by (auto simp: render_object_def Let_def split: option.splits)

lemmas listing_eval = handleFileList_def normalize_path_def list_prefix_def issue_def Let_def
  listed_objects_def render_object_def object_displayname_def collection_displayname_def pop_def
  uri_unescaped_def escape_code_point_def utf8_octets_def percent_octet_def hex_char_def
  number_string.simps digit_def example_date collection_response_def object_response_def obj_spread_def xml_error_def
  example_children_def example_listing_def status_of_def body_of_def

lemma example_listing_response:
  "handleFileList (example_env never) (example_request ''/x/'') empty_world
   = (Inr example_listing, empty_world\<lparr>store_ops := [OpList (js ''x/'')]\<rparr>)"
  by (simp add: listing_eval example_eval string_eval)

section \<open>The listing: text and tree\<close>



lemma markup_free_append [simp]:
  "markup_free (a @ b) \<longleftrightarrow> markup_free a \<and> markup_free b"
  by (simp add: markup_free_def)












section \<open>The listing: what is rendered for a child\<close>




text \<open>
  The documents of that listing, as trees: the collection \<^verbatim>\<open>x\<close>, the file of 10
  bytes and the folder, each with its date.
\<close>

lemma example_listing_tree:
  "body example_listing
   = Text (multistatus
       [collection_entry (js ''/x'') (js ''x''),
        child_entry (js ''/x/a.txt'') False (js ''a.txt'') (js ''10'')
          (js ''Mon, 01 Jan 2024 00:00:00 GMT''),
        child_entry (js ''/x/sub/'') True (js ''sub'') (js ''0'')
          (js ''Mon, 01 Jan 2024 00:00:00 GMT'')])"
  by (simp add: example_listing_def multistatus_def collection_entry_def child_entry_def
      line_break_def js_def)

text \<open>
  Without the proviso on the keys the text written need not be the document of one
  element per child: the display name is copied as it is, so the child \<^verbatim>\<open>dir/<b>\<close>
  brings the start of an element of its own.
\<close>

lemma displayname_is_not_escaped:
  "object_displayname (js ''dir/<b>'') = js ''<b>'' \<and> \<not> markup_free (js ''<b>'')"
  by (simp add: object_displayname_def pop_def markup_free_def js_def)


section \<open>The listing: the structure of the document\<close>

text \<open>
  In every listing answered with status 207, the document starts with the response of
  the collection itself, whose href is \<^verbatim>\<open>encodeURI\<close> of the path without its
  trailing slash and whose display name is \<^verbatim>\<open>root\<close> for the root and otherwise
  what follows the last \<open>/\<close> of that path; then comes, for each listed child in
  order, the text of exactly one response, with the href, resource type, display name,
  size and date of that child. The display name of a child is the last segment of its key that is not empty,
  whenever the key has one.
\<close>

lemma listing_structure:
  assumes "fst (handleFileList e request w) = Inr resp" and "status resp = 207"
    and "path = normalize_path (pathname request)"
    and "children = listed_objects e request"
  shows "\<exists>href displayname pieces.
      encodeURI path = Some href
    \<and> body resp = Text (collection_response href displayname
                        @ concat pieces @ js_lines ['''', ''</D:multistatus>''])
    \<and> (path = js ''/'' \<longrightarrow> displayname = js ''root'')
    \<and> (\<forall>pre seg. path = pre @ slash # seg \<and> slash \<notin> set seg \<and> path \<noteq> js ''/''
          \<longrightarrow> displayname = seg)
    \<and> length pieces = length children
    \<and> (\<forall>i<length children. \<exists>h.
          encodeURI (js ''/'' @ key (children ! i)) = Some h
        \<and> pieces ! i = object_response h (endsWith (key (children ! i)) (js ''/''))
                          (object_displayname (key (children ! i)))
                          (number_string (byte_size (children ! i)))
                          (toUTCString (uploaded (children ! i))))
    \<and> (\<forall>i<length children. \<forall>pre seg n.
          key (children ! i) = pre @ seg @ replicate n slash \<and> seg \<noteq> [] \<and> slash \<notin> set seg
            \<and> (pre = [] \<or> last pre = slash)
          \<longrightarrow> object_displayname (key (children ! i)) = seg)"
proof -
  from handleFileList_207 [OF assms(1,2)] obtain href pieces where
    href: "encodeURI path = Some href"
    and pieces: "those (map render_object children) = Some pieces"
    and body: "body resp = Text (collection_response href (collection_displayname path)
                        @ concat pieces @ js_lines ['''', ''</D:multistatus>''])"
    unfolding assms(3,4) by blast
  from those_Some_nth [OF pieces] have len: "length pieces = length children"
    and nth: "\<And>i. i < length children \<Longrightarrow> render_object (children ! i) = Some (pieces ! i)"
    by simp_all
  have root: "path = js ''/'' \<longrightarrow> collection_displayname path = js ''root''"
    by (simp add: collection_displayname_def)
  have seg: "\<forall>pre seg. path = pre @ slash # seg \<and> slash \<notin> set seg \<and> path \<noteq> js ''/''
          \<longrightarrow> collection_displayname path = seg"
  proof (intro allI impI, elim conjE)
    fix pre seg
    assume "path = pre @ slash # seg" and "slash \<notin> set seg" and "path \<noteq> js ''/''"
    then show "collection_displayname path = seg"
      by (rule collection_displayname_segment)
  qed
  have child: "\<forall>i<length children. \<exists>h.
          encodeURI (js ''/'' @ key (children ! i)) = Some h
        \<and> pieces ! i = object_response h (endsWith (key (children ! i)) (js ''/''))
                          (object_displayname (key (children ! i)))
                          (number_string (byte_size (children ! i)))
                          (toUTCString (uploaded (children ! i)))"
  proof (intro allI impI)
    fix i
    assume "i < length children"
    from render_object_Some [OF nth [OF this]] show "\<exists>h.
          encodeURI (js ''/'' @ key (children ! i)) = Some h
        \<and> pieces ! i = object_response h (endsWith (key (children ! i)) (js ''/''))
                          (object_displayname (key (children ! i)))
                          (number_string (byte_size (children ! i)))
                          (toUTCString (uploaded (children ! i)))" .
  qed
  have names: "\<forall>i<length children. \<forall>pre seg n.
          key (children ! i) = pre @ seg @ replicate n slash \<and> seg \<noteq> [] \<and> slash \<notin> set seg
            \<and> (pre = [] \<or> last pre = slash)
          \<longrightarrow> object_displayname (key (children ! i)) = seg"
  proof (intro allI impI, elim conjE)
    fix i pre seg n
    assume "key (children ! i) = pre @ seg @ replicate n slash" and "seg \<noteq> []"
      and "slash \<notin> set seg" and "pre = [] \<or> last pre = slash"
    then show "object_displayname (key (children ! i)) = seg"
      by (rule object_displayname_segment)
  qed
  from href body root seg len child names show ?thesis
    by (intro exI [of _ href] exI [of _ "collection_displayname path"] exI [of _ pieces] conjI)
qed

lemma listing_structure_example:
  "fst (handleFileList (example_env never) (example_request ''/x/'') empty_world)
     = Inr example_listing
   \<and> status example_listing = 207
   \<and> js ''/x'' = normalize_path (pathname (example_request ''/x/''))
   \<and> example_children = listed_objects (example_env never) (example_request ''/x/'')
   \<and> (\<exists>href displayname pieces.
        encodeURI (js ''/x'') = Some href
      \<and> body example_listing
          = Text (collection_response href displayname @ concat pieces @ js_lines ['''', ''</D:multistatus>''])
      \<and> (js ''/x'' = js ''/'' \<longrightarrow> displayname = js ''root'')
      \<and> (\<forall>pre seg. js ''/x'' = pre @ slash # seg \<and> slash \<notin> set seg \<and> js ''/x'' \<noteq> js ''/''
            \<longrightarrow> displayname = seg)
      \<and> length pieces = length example_children
      \<and> (\<forall>i<length example_children. \<exists>h.
            encodeURI (js ''/'' @ key (example_children ! i)) = Some h
          \<and> pieces ! i = object_response h (endsWith (key (example_children ! i)) (js ''/''))
                            (object_displayname (key (example_children ! i)))
                            (number_string (byte_size (example_children ! i)))
                            (toUTCString (uploaded (example_children ! i))))
      \<and> (\<forall>i<length example_children. \<forall>pre seg n.
            key (example_children ! i) = pre @ seg @ replicate n slash \<and> seg \<noteq> []
              \<and> slash \<notin> set seg \<and> (pre = [] \<or> last pre = slash)
            \<longrightarrow> object_displayname (key (example_children ! i)) = seg))"
proof -
  have h1: "fst (handleFileList (example_env never) (example_request ''/x/'') empty_world)
     = Inr example_listing"
    by (simp add: example_listing_response)
  have h2: "status example_listing = 207"
    by (simp add: example_listing_def)
  have h3: "js ''/x'' = normalize_path (pathname (example_request ''/x/''))"
    by (simp add: normalize_path_def Let_def example_eval string_eval)
  have h4: "example_children = listed_objects (example_env never) (example_request ''/x/'')"
    by (simp add: listed_objects_def normalize_path_def list_prefix_def Let_def example_eval
        string_eval)
  from h1 h2 h3 h4 listing_structure [OF h1 h2 h3 h4] show ?thesis
    by (intro conjI)
qed

text \<open>
  C8 at the request path \<^verbatim>\<open>/dav//\<close>: the listing is answered with status 207, the
  path without one trailing slash is \<^verbatim>\<open>/dav/\<close>, and the display name of the
  collection is empty, while the last segment of the path that is not empty is
  \<^verbatim>\<open>dav\<close>.
\<close>

theorem double_slash_collection_has_empty_displayname:
  "normalize_path (js ''/dav//'') = js ''/dav/''
   \<and> status_of (fst (handleFileList (example_env never) (example_request ''/dav//'') empty_world))
       = Some 207
   \<and> body_of (fst (handleFileList (example_env never) (example_request ''/dav//'') empty_world))
       = Some (Text (collection_response (js ''/dav/'') [] @ js_lines ['''', ''</D:multistatus>'']))
   \<and> filter (\<lambda>x. x \<noteq> []) (str_split slash (js ''/dav//'')) = [js ''dav'']"
  by (simp add: listing_eval example_eval string_eval)

text \<open>
  The path handed to \<^verbatim>\<open>encodeURI\<close> is the path of the URL, which is already
  escaped, so an escape in it is escaped again in the href.
\<close>

lemma collection_href_escapes_again:
  "encodeURI (normalize_path (js ''/a%20b/'')) = Some (js ''/a%2520b'')"
  by (simp add: listing_eval string_eval)

end
